theory Spec2Isabelle
  imports Complex_Main
begin

section \<open>Numbers, errors and library boundaries\<close>

text \<open>
  The engine of \<^verbatim>\<open>streamlit_oil_gas_app.py\<close> computes with Python floats. They are
  modelled as exact reals: the rounding of results is outside this development. Two
  special values that the code meets without any rounding are kept: the infinity that
  \<^verbatim>\<open>create_risk_assessment\<close> writes as \<^verbatim>\<open>float('inf')\<close>, and the NaN that pandas
  returns for the sample standard deviation of fewer than two values.

  Exceptions are values of \<open>error\<close>. \<open>ZeroDivisionError\<close>, \<open>OverflowError\<close>,
  \<open>KeyError\<close> and \<open>ValueError\<close> are the Python exceptions the modelled functions can
  raise. \<open>InvalidParameterError\<close> and \<open>EmptyBatchError\<close> are the two names of the
  specification's error taxonomy; the source defines and raises neither, they are listed
  so that statements about them can be written.
\<close>

datatype error =
  ZeroDivisionError | OverflowError | KeyError | ValueError
  | InvalidParameterError | EmptyBatchError

datatype pyfloat = Fin real | PosInf | NaN

text \<open>
  Of the float operations of the projector only the power \<^verbatim>\<open>x ** n\<close> raises: Python
  raises \<^verbatim>\<open>OverflowError\<close> when the result is too large for a double (products, sums
  and quotients overflow to infinity silently). The exact result has no double when its
  magnitude is at least \<open>2 ^ 1024 - 2 ^ 970\<close>, the largest double plus half a unit in its
  last place. The operands are exact here, so within their rounding of that boundary the
  model and the code can differ.
\<close>

definition overflows :: "real \<Rightarrow> bool" where
  "overflows y \<longleftrightarrow> \<bar>y\<bar> \<ge> 2 ^ 1024 - 2 ^ 970"

text \<open>
  \<^verbatim>\<open>scipy.optimize.fsolve(func, x0)\<close> is not code of the repository. Called without
  \<^verbatim>\<open>full_output\<close>, it returns its final iterate both when it converged and when it
  did not (then it only emits a warning), and an exception raised inside it propagates
  to the caller. The solver is a parameter of the model with these three outcomes. Which
  cash flows lead to which outcome is the library's matter and is not modelled; the
  arithmetic of \<^verbatim>\<open>npv_func\<close> on the array the solver passes in is numpy's, where an
  overflow or a division by zero gives an infinity or a NaN and raises nothing.
\<close>

datatype fsolve_result = Converged real | NotConverged real | Raised

type_synonym fsolve = "(real \<Rightarrow> real) \<Rightarrow> real \<Rightarrow> fsolve_result"

section \<open>The IRR solver\<close>

text \<open>
  \<^verbatim>\<open>npv_func(rate) = sum(cf / (1 + rate/12)**(i+1) for i, cf in enumerate(cash_flows))\<close>.
  It is only ever evaluated by the root finder.
\<close>

definition npv_func :: "real list \<Rightarrow> real \<Rightarrow> real" where
  "npv_func cash_flows rate =
     sum_list (map (\<lambda>(i, cf). cf / (1 + rate / 12) ^ (i + 1)) (enumerate 0 cash_flows))"

text \<open>
  \<^verbatim>\<open>try: irr = fsolve(npv_func, 0.1)[0] * 100; return max(min(irr, 1000), -100)\<close>
  \<^verbatim>\<open>except: return 0\<close>
\<close>

definition calculate_irr_scipy :: "fsolve \<Rightarrow> real list \<Rightarrow> real" where
  "calculate_irr_scipy fsolve cash_flows =
     (case fsolve (npv_func cash_flows) 0.1 of
        Raised \<Rightarrow> 0
      | Converged x \<Rightarrow> (let irr = x * 100 in max (min irr 1000) (- 100))
      | NotConverged x \<Rightarrow> (let irr = x * 100 in max (min irr 1000) (- 100)))"

section \<open>The cash-flow projector\<close>

text \<open>The pandas DataFrame \<^verbatim>\<open>df\<close>: one list of 60 values per column.\<close>

record dataframe =
  Month :: "nat list"
  Oil_Production :: "real list"
  Gas_Production :: "real list"
  Oil_Revenue :: "real list"
  Gas_Revenue :: "real list"
  Total_Revenue :: "real list"
  Operating_Expenses :: "real list"
  Severance_Tax :: "real list"
  Total_OpEx :: "real list"
  Net_Operating_Income :: "real list"
  CapEx :: "real list"
  Net_Cash_Flow :: "real list"
  Cumulative_Cash_Flow :: "real list"
  PV_Factor :: "real list"
  PV_Cash_Flow :: "real list"

text \<open>
  The \<^verbatim>\<open>summary\<close> dictionary. Its key \<^verbatim>\<open>'Total_Revenue'\<close> is the field
  \<open>Sum_Total_Revenue\<close> here, the column of the same name keeping the name.
\<close>

record summary =
  Total_Investment :: real
  Sum_Total_Revenue :: real
  NPV :: real
  IRR :: real
  Payback_Months :: nat
  Final_Cumulative_CF :: real
  Peak_Production :: real
  Final_Production :: real

text \<open>\<^verbatim>\<open>capex_schedule = [500, 300, 200, 100, 50, 50] + [10]*18 + [5]*36\<close>\<close>

definition capex_schedule :: "real list" where
  "capex_schedule = [500, 300, 200, 100, 50, 50] @ replicate 18 10 @ replicate 36 5"

text \<open>\<^verbatim>\<open>Series.cumsum()\<close>: the running sum, in increasing row order.\<close>

fun cumsum_from :: "real \<Rightarrow> real list \<Rightarrow> real list" where
  "cumsum_from acc [] = []"
| "cumsum_from acc (x # xs) = (acc + x) # cumsum_from (acc + x) xs"

definition cumsum :: "real list \<Rightarrow> real list" where
  "cumsum xs = cumsum_from 0 xs"

text \<open>
  The payback loop:
  \<^verbatim>\<open>for i, cum_cf in enumerate(df['Cumulative_Cash_Flow']):\<close>
  \<^verbatim>\<open>    if cum_cf >= 0: payback_month = i + 1; break\<close>
  The third argument is the value of \<^verbatim>\<open>payback_month\<close> before the loop.
\<close>

fun payback_loop :: "nat \<Rightarrow> real list \<Rightarrow> nat \<Rightarrow> nat" where
  "payback_loop i [] payback_month = payback_month"
| "payback_loop i (cum_cf # rest) payback_month =
     (if cum_cf \<ge> 0 then i + 1 else payback_loop (i + 1) rest payback_month)"

text \<open>\<^verbatim>\<open>Series.max()\<close> of a non-empty column.\<close>

definition series_max :: "real list \<Rightarrow> real" where
  "series_max xs = fold max (tl xs) (hd xs)"

text \<open>
  \<^verbatim>\<open>calculate_oil_gas_model\<close>. The horizon is the literal 60 and the function checks
  none of its arguments, which are floats. Its exceptions are those of its powers, in the order of the
  source lines: \<^verbatim>\<open>OverflowError\<close> of \<^verbatim>\<open>(1 - decline_rate) ** (month - 1)\<close> (line 76),
  then \<^verbatim>\<open>ZeroDivisionError\<close> of \<^verbatim>\<open>(1 + monthly_discount) ** -month\<close> when the base
  is 0, or its \<^verbatim>\<open>OverflowError\<close> when the base is close to 0 (line 104). The powers of
  the cost escalation have the constant base \<open>1 + 0.025 / 12\<close> and stay below 2.
\<close>

definition calculate_oil_gas_model ::
  "fsolve \<Rightarrow> real \<Rightarrow> real \<Rightarrow> real \<Rightarrow> real \<Rightarrow> real \<Rightarrow> error + (dataframe \<times> summary)" where
  "calculate_oil_gas_model fsolve oil_price gas_price initial_production decline_rate discount_rate =
    (let decline_rate = decline_rate / 100;
         discount_rate = discount_rate / 100;
         months = [1..<61];
         oil_production = map (\<lambda>month. initial_production * ((1 - decline_rate) ^ (month - 1))) months;
         gas_production = map (\<lambda>x. x * 6) oil_production;
         oil_revenue = map (\<lambda>x. x * oil_price / 1000) oil_production;
         gas_revenue = map (\<lambda>x. x * gas_price / 1000) gas_production;
         total_revenue = map2 (+) oil_revenue gas_revenue;
         base_opex = 15;
         cost_escalation = 0.025;
         operating_expenses = map (\<lambda>month. base_opex * ((1 + cost_escalation / 12) ^ (month - 1))) months;
         severance_tax = map (\<lambda>x. x * 0.075) total_revenue;
         total_opex = map2 (+) operating_expenses severance_tax;
         net_operating_income = map2 (-) total_revenue total_opex;
         capex = capex_schedule;
         net_cash_flow = map2 (-) net_operating_income capex;
         cumulative_cash_flow = cumsum net_cash_flow;
         monthly_discount = discount_rate / 12
     in if list_ex (\<lambda>month. overflows ((1 - decline_rate) ^ (month - 1))) months
        then Inl OverflowError
        else if 1 + monthly_discount = 0 then Inl ZeroDivisionError
        else if list_ex (\<lambda>month. overflows ((1 + monthly_discount) powi (- int month))) months
        then Inl OverflowError
        else
          (let pv_factor = map (\<lambda>month. (1 + monthly_discount) powi (- int month)) months;
               pv_cash_flow = map2 (*) net_cash_flow pv_factor;
               total_investment = sum_list capex;
               total_revenue_sum = sum_list total_revenue;
               npv = sum_list pv_cash_flow;
               final_cumulative = last cumulative_cash_flow;
               payback_month = payback_loop 0 cumulative_cash_flow 60;
               cash_flows = net_cash_flow;
               irr = calculate_irr_scipy fsolve cash_flows
           in Inr (\<lparr>Month = months,
                     Oil_Production = oil_production,
                     Gas_Production = gas_production,
                     Oil_Revenue = oil_revenue,
                     Gas_Revenue = gas_revenue,
                     Total_Revenue = total_revenue,
                     Operating_Expenses = operating_expenses,
                     Severance_Tax = severance_tax,
                     Total_OpEx = total_opex,
                     Net_Operating_Income = net_operating_income,
                     CapEx = capex,
                     Net_Cash_Flow = net_cash_flow,
                     Cumulative_Cash_Flow = cumulative_cash_flow,
                     PV_Factor = pv_factor,
                     PV_Cash_Flow = pv_cash_flow\<rparr>,
                   \<lparr>Total_Investment = total_investment,
                     Sum_Total_Revenue = total_revenue_sum,
                     NPV = npv,
                     IRR = irr,
                     Payback_Months = payback_month,
                     Final_Cumulative_CF = final_cumulative,
                     Peak_Production = series_max oil_production,
                     Final_Production = last oil_production\<rparr>)))"

section \<open>The Monte Carlo simulator\<close>

text \<open>
  One row of the DataFrame returned by \<^verbatim>\<open>run_monte_carlo_simulation\<close>: the four sampled
  parameters under their keys, and the six entries copied from the trial's summary, whose
  keys carry the prefix \<open>mc_\<close> here.
\<close>

record mc_run =
  Oil_Price :: real
  Gas_Price :: real
  Initial_Production :: real
  Decline_Rate :: real
  mc_NPV :: real
  mc_IRR :: real
  mc_Payback_Months :: nat
  mc_Final_Cumulative_CF :: real
  mc_Total_Investment :: real
  mc_Total_Revenue :: real

text \<open>
  \<^verbatim>\<open>base_params\<close> and \<^verbatim>\<open>volatility_factors\<close> are dictionaries from parameter names to
  numbers; \<^verbatim>\<open>d[k]\<close> raises \<^verbatim>\<open>KeyError\<close> on a missing key.
\<close>

definition getitem :: "(string \<rightharpoonup> real) \<Rightarrow> string \<Rightarrow> error + real" where
  "getitem d k = (case d k of None \<Rightarrow> Inl KeyError | Some v \<Rightarrow> Inr v)"

text \<open>An exception ends the computation: sequencing of fallible steps.\<close>

definition bind_err :: "error + 'a \<Rightarrow> ('a \<Rightarrow> error + 'b) \<Rightarrow> error + 'b" where
  "bind_err m f = (case m of Inl e \<Rightarrow> Inl e | Inr x \<Rightarrow> f x)"

text \<open>
  \<^verbatim>\<open>np.random.normal(loc, scale)\<close> draws from numpy's global generator. The generator is
  a parameter: a function \<open>normal\<close> from the two arguments and the generator state to
  the drawn number and the next state. Any real number can be drawn. numpy raises
  \<^verbatim>\<open>ValueError\<close> for a negative \<^verbatim>\<open>scale\<close>.
\<close>

type_synonym 'g normal = "real \<Rightarrow> real \<Rightarrow> 'g \<Rightarrow> real \<times> 'g"

definition np_random_normal :: "'g normal \<Rightarrow> real \<Rightarrow> real \<Rightarrow> 'g \<Rightarrow> error + (real \<times> 'g)" where
  "np_random_normal normal loc scale g =
     (if scale < 0 then Inl ValueError else Inr (normal loc scale g))"

definition default_volatility_factors :: "string \<rightharpoonup> real" where
  "default_volatility_factors =
     [''oil_price'' \<mapsto> 0.15, ''gas_price'' \<mapsto> 0.25,
      ''initial_production'' \<mapsto> 0.10, ''decline_rate'' \<mapsto> 0.20]"

text \<open>
  The body of the loop \<^verbatim>\<open>for i in range(num_simulations)\<close>: four draws, each floored
  or clamped, one call of the projector with the base discount rate, one result row.
  The progress bar and the status text are display only and are left out.
\<close>

definition mc_trial ::
  "'g normal \<Rightarrow> fsolve \<Rightarrow> (string \<rightharpoonup> real) \<Rightarrow> (string \<rightharpoonup> real) \<Rightarrow> 'g \<Rightarrow> error + (mc_run \<times> 'g)" where
  "mc_trial normal fsolve base_params volatility_factors g =
     bind_err (getitem base_params ''oil_price'') (\<lambda>b1.
     bind_err (getitem volatility_factors ''oil_price'') (\<lambda>v1.
     bind_err (np_random_normal normal b1 (b1 * v1) g) (\<lambda>(x1, g1).
     let oil_price = max 20 x1 in
     bind_err (getitem base_params ''gas_price'') (\<lambda>b2.
     bind_err (getitem volatility_factors ''gas_price'') (\<lambda>v2.
     bind_err (np_random_normal normal b2 (b2 * v2) g1) (\<lambda>(x2, g2).
     let gas_price = max 1 x2 in
     bind_err (getitem base_params ''initial_production'') (\<lambda>b3.
     bind_err (getitem volatility_factors ''initial_production'') (\<lambda>v3.
     bind_err (np_random_normal normal b3 (b3 * v3) g2) (\<lambda>(x3, g3).
     let initial_production = max 100 x3 in
     bind_err (getitem base_params ''decline_rate'') (\<lambda>b4.
     bind_err (getitem volatility_factors ''decline_rate'') (\<lambda>v4.
     bind_err (np_random_normal normal b4 (b4 * v4) g3) (\<lambda>(x4, g4).
     let decline_rate = max 0.5 (min 10 x4) in
     bind_err (getitem base_params ''discount_rate'') (\<lambda>discount_rate.
     bind_err (calculate_oil_gas_model fsolve oil_price gas_price initial_production
                 decline_rate discount_rate) (\<lambda>(df, summary).
     Inr (\<lparr>Oil_Price = oil_price,
            Gas_Price = gas_price,
            Initial_Production = initial_production,
            Decline_Rate = decline_rate,
            mc_NPV = NPV summary,
            mc_IRR = IRR summary,
            mc_Payback_Months = Payback_Months summary,
            mc_Final_Cumulative_CF = Final_Cumulative_CF summary,
            mc_Total_Investment = Total_Investment summary,
            mc_Total_Revenue = Sum_Total_Revenue summary\<rparr>, g4)))))))))))))))"

text \<open>The loop itself; \<open>results\<close> is the list the source appends to.\<close>

fun mc_loop ::
  "'g normal \<Rightarrow> fsolve \<Rightarrow> (string \<rightharpoonup> real) \<Rightarrow> (string \<rightharpoonup> real) \<Rightarrow> nat \<Rightarrow> 'g \<Rightarrow> mc_run list
     \<Rightarrow> error + (mc_run list \<times> 'g)" where
  "mc_loop normal fsolve base_params volatility_factors 0 g results = Inr (results, g)"
| "mc_loop normal fsolve base_params volatility_factors (Suc k) g results =
     bind_err (mc_trial normal fsolve base_params volatility_factors g) (\<lambda>(row, g').
       mc_loop normal fsolve base_params volatility_factors k g' (results @ [row]))"

text \<open>
  \<^verbatim>\<open>run_monte_carlo_simulation(base_params, num_simulations=1000, volatility_factors=None)\<close>.
  \<^verbatim>\<open>range(num_simulations)\<close> is empty for a number below 1. The result is the list of
  rows of the returned DataFrame, with the generator state after the last draw.
\<close>

definition run_monte_carlo_simulation ::
  "'g normal \<Rightarrow> 'g \<Rightarrow> fsolve \<Rightarrow> (string \<rightharpoonup> real) \<Rightarrow> int \<Rightarrow> (string \<rightharpoonup> real) option
     \<Rightarrow> error + (mc_run list \<times> 'g)" where
  "run_monte_carlo_simulation normal g fsolve base_params num_simulations volatility_factors =
     (let volatility_factors =
            (case volatility_factors of None \<Rightarrow> default_volatility_factors | Some v \<Rightarrow> v)
      in mc_loop normal fsolve base_params volatility_factors (nat num_simulations) g [])"

section \<open>The risk aggregator\<close>

text \<open>
  The pandas and numpy statistics used by \<^verbatim>\<open>create_risk_assessment\<close>, on a list of
  exact numbers. \<^verbatim>\<open>Series.mean()\<close> is the arithmetic mean. \<^verbatim>\<open>Series.std()\<close> is the
  sample standard deviation (\<^verbatim>\<open>ddof=1\<close>): the squared deviations are divided by
  \<open>n - 1\<close>, and the result is NaN for fewer than two values. \<^verbatim>\<open>Series.quantile(q)\<close>
  and \<^verbatim>\<open>np.percentile(a, 100 * q)\<close> interpolate linearly between the two order
  statistics around position \<open>(n - 1) * q\<close>.
\<close>

definition mean :: "real list \<Rightarrow> real" where
  "mean xs = sum_list xs / real (length xs)"

definition std :: "real list \<Rightarrow> pyfloat" where
  "std xs =
     (if length xs \<le> 1 then NaN
      else Fin (sqrt (sum_list (map (\<lambda>x. (x - mean xs) ^ 2) xs) / real (length xs - 1))))"

definition quantile :: "real list \<Rightarrow> real \<Rightarrow> real" where
  "quantile xs q =
     (let s = sort xs;
          n = length s;
          h = real (n - 1) * q;
          lo = nat \<lfloor>h\<rfloor>;
          hi = min (lo + 1) (n - 1)
      in s ! lo + (h - real lo) * (s ! hi - s ! lo))"

definition percentile :: "real list \<Rightarrow> real \<Rightarrow> real" where
  "percentile xs p = quantile xs (p / 100)"

text \<open>The record of the dictionary returned by \<^verbatim>\<open>create_risk_assessment\<close>.\<close>

record risk_metrics =
  Expected_NPV :: real
  Probability_Positive :: real
  Probability_Excellent :: real
  Value_at_Risk_5 :: real
  Standard_Deviation :: pyfloat
  Coefficient_of_Variation :: pyfloat
  Downside_Deviation :: pyfloat
  Risk_Adjusted_Return :: real
  P10_NPV :: real
  P50_NPV :: real
  P90_NPV :: real

text \<open>
  \<^verbatim>\<open>x / y\<close> for a float \<open>x\<close> and a finite \<open>y > 0\<close>: NaN propagates through the
  division.
\<close>

fun div_by_pos :: "pyfloat \<Rightarrow> real \<Rightarrow> pyfloat" where
  "div_by_pos (Fin x) y = Fin (x / y)"
| "div_by_pos PosInf y = PosInf"
| "div_by_pos NaN y = NaN"

text \<open>
  \<^verbatim>\<open>create_risk_assessment(mc_results)\<close>. The argument is the DataFrame built from the
  list of result rows. Built from no rows it has no columns, so that
  \<^verbatim>\<open>mc_results['NPV']\<close> raises \<^verbatim>\<open>KeyError\<close>; the source has no check of its own for
  an empty batch. In \<^verbatim>\<open>expected_value / std_dev if std_dev > 0 else 0\<close> the comparison
  is false for NaN, and a finite number divided by infinity is 0.
\<close>

definition create_risk_assessment :: "mc_run list \<Rightarrow> error + risk_metrics" where
  "create_risk_assessment mc_results =
     (if mc_results = [] then Inl KeyError
      else
        (let npv_values = map mc_NPV mc_results;
             probability_positive =
               real (length (filter (\<lambda>x. x > 0) npv_values)) / real (length npv_values) * 100;
             probability_excellent =
               real (length (filter (\<lambda>x. x > quantile npv_values 0.75) npv_values))
                 / real (length npv_values) * 100;
             value_at_risk_5 = percentile npv_values 5;
             expected_value = mean npv_values;
             std_dev = std npv_values;
             cv = (if expected_value \<noteq> 0 then div_by_pos std_dev \<bar>expected_value\<bar> else PosInf);
             downside_returns = filter (\<lambda>x. x < expected_value) npv_values;
             downside_deviation =
               (if length downside_returns > 0 then std downside_returns else Fin 0);
             sharpe_ratio =
               (case std_dev of
                  Fin sd \<Rightarrow> (if sd > 0 then expected_value / sd else 0)
                | PosInf \<Rightarrow> 0
                | NaN \<Rightarrow> 0)
         in Inr \<lparr>Expected_NPV = expected_value,
                 Probability_Positive = probability_positive,
                 Probability_Excellent = probability_excellent,
                 Value_at_Risk_5 = value_at_risk_5,
                 Standard_Deviation = std_dev,
                 Coefficient_of_Variation = cv,
                 Downside_Deviation = downside_deviation,
                 Risk_Adjusted_Return = sharpe_ratio,
                 P10_NPV = percentile npv_values 10,
                 P50_NPV = percentile npv_values 50,
                 P90_NPV = percentile npv_values 90\<rparr>))"

text \<open>A result row with the given NPV, the other entries those of the base case, for examples.\<close>

abbreviation run_with_npv :: "real \<Rightarrow> mc_run" where
  "run_with_npv v \<equiv>
     \<lparr>Oil_Price = 65, Gas_Price = 3.25, Initial_Production = 1000, Decline_Rate = 1.5,
      mc_NPV = v, mc_IRR = 0, mc_Payback_Months = 60, mc_Final_Cumulative_CF = 0,
      mc_Total_Investment = 1560, mc_Total_Revenue = 0\<rparr>"

section \<open>Properties of the cash-flow projector\<close>

text \<open>
  No power of the projector overflows when the decline base \<open>1 - decline_rate / 100\<close> is
  at most 2 in magnitude and the discount base \<open>1 + discount_rate / 100 / 12\<close> at least
  one half: the projector then returns a result. The lemmas after that read the columns
  and summary entries off a returned result.
\<close>

lemma not_overflows: "\<bar>y\<bar> \<le> 2 ^ 60 \<Longrightarrow> \<not> overflows y"
proof -
  assume "\<bar>y\<bar> \<le> 2 ^ 60"
  moreover have "(2::real) ^ 60 < 2 ^ 1024 - 2 ^ 970" by simp
  ultimately show ?thesis by (simp add: overflows_def)
qed

lemma decline_power_small:
  fixes b :: real
  assumes "\<bar>b\<bar> \<le> 2" and "month \<in> set [1..<61]"
  shows "\<not> overflows (b ^ (month - 1))"
proof (rule not_overflows)
  have "\<bar>b ^ (month - 1)\<bar> = \<bar>b\<bar> ^ (month - 1)" by (simp add: power_abs)
  also have "\<dots> \<le> 2 ^ (month - 1)" using assms(1) by (intro power_mono) simp_all
  also have "\<dots> \<le> (2::real) ^ 60" using assms(2) by (intro power_increasing) auto
  finally show "\<bar>b ^ (month - 1)\<bar> \<le> 2 ^ 60" .
qed

lemma discount_power_small:
  fixes b :: real
  assumes "1 / 2 \<le> \<bar>b\<bar>" and "month \<in> set [1..<61]"
  shows "\<not> overflows (b powi (- int month))"
proof (rule not_overflows)
  from assms(1) have pos: "0 < \<bar>b\<bar>" by simp
  have "\<bar>b powi (- int month)\<bar> = inverse \<bar>b\<bar> ^ month"
    by (simp add: power_int_minus power_abs power_inverse)
  also have "\<dots> \<le> 2 ^ month"
  proof (intro power_mono)
    from assms(1) pos show "inverse \<bar>b\<bar> \<le> 2" by (simp add: field_simps)
    from pos show "0 \<le> inverse \<bar>b\<bar>" by simp
  qed
  also have "\<dots> \<le> (2::real) ^ 60" using assms(2) by (intro power_increasing) auto
  finally show "\<bar>b powi (- int month)\<bar> \<le> 2 ^ 60" .
qed

lemma model_defined:
  assumes "\<bar>1 - dr / 100\<bar> \<le> 2" and "1 / 2 \<le> \<bar>1 + disc / 100 / 12\<bar>"
  shows "\<exists>df s. calculate_oil_gas_model fs op gp ip dr disc = Inr (df, s)"
proof -
  have a: "\<not> list_ex (\<lambda>month. overflows ((1 - dr / 100) ^ (month - 1))) [1..<61]"
    unfolding list_ex_iff using decline_power_small [OF assms(1)] by blast
  have b: "\<not> list_ex (\<lambda>month. overflows ((1 + disc / 100 / 12) powi (- int month))) [1..<61]"
    unfolding list_ex_iff using discount_power_small [OF assms(2)] by blast
  from assms(2) have c: "1 + disc / 100 / 12 \<noteq> 0" by auto
  from a b c show ?thesis by (simp add: calculate_oil_gas_model_def Let_def)
qed

lemma model_oil:
  assumes "calculate_oil_gas_model fs op gp ip dr disc = Inr (df, s)"
  shows "Oil_Production df = map (\<lambda>month. ip * ((1 - dr / 100) ^ (month - 1))) [1..<61]"
  using assms by (auto simp: calculate_oil_gas_model_def Let_def split: if_splits)

lemma model_oil_nth:
  assumes "calculate_oil_gas_model fs op gp ip dr disc = Inr (df, s)" and "i < 60"
  shows "Oil_Production df ! i = ip * (1 - dr / 100) ^ i"
  using assms(2) by (simp add: model_oil [OF assms(1)] nth_map_upt del: upt_Suc)

lemma model_gas:
  assumes "calculate_oil_gas_model fs op gp ip dr disc = Inr (df, s)"
  shows "Gas_Production df = map (\<lambda>x. x * 6) (Oil_Production df)"
  using assms by (auto simp: calculate_oil_gas_model_def Let_def split: if_splits)

lemma model_capex:
  assumes "calculate_oil_gas_model fs op gp ip dr disc = Inr (df, s)"
  shows "CapEx df = capex_schedule \<and> Total_Investment s = sum_list capex_schedule"
  using assms by (auto simp: calculate_oil_gas_model_def Let_def split: if_splits)

lemma sum_capex_schedule: "sum_list capex_schedule = 1560"
  by (simp add: capex_schedule_def sum_list_replicate)

lemma length_capex_schedule: "length capex_schedule = 60"
  by (simp add: capex_schedule_def)

lemma geometric_strict_decrease:
  fixes a q :: real
  assumes "0 < a" "0 < q" "q < 1"
  shows "a * (1 - q) ^ Suc i < a * (1 - q) ^ i"
proof -
  have "0 < (1 - q) ^ i" using assms by simp
  moreover have "1 - q < 1" using assms by simp
  ultimately have "(1 - q) ^ i * (1 - q) < (1 - q) ^ i * 1"
    by (intro mult_strict_left_mono) auto
  then show ?thesis using assms(1) by (simp add: mult.commute)
qed

text \<open>
  C1. With the worked example's arguments (oil price 65, gas price 3.25, initial
  production 1000, decline rate 1.5, discount rate 10) the projection has 60 periods, oil
  production 1000 in period 1 and 985 in period 2, so the decline rate is a percentage
  divided by 100 before use, and oil production falls strictly from every period to the
  next. The total investment is the sum of the capex schedule, 1560, and it is that same
  constant whatever the five arguments are.
\<close>

theorem worked_example:
  "(\<exists>df s. calculate_oil_gas_model fsolve 65 3.25 1000 1.5 10 = Inr (df, s)
        \<and> length (Oil_Production df) = 60
        \<and> Oil_Production df ! 0 = 1000
        \<and> Oil_Production df ! 1 = 985
        \<and> (\<forall>i. Suc i < 60 \<longrightarrow> Oil_Production df ! Suc i < Oil_Production df ! i)
        \<and> Total_Investment s = sum_list capex_schedule)
   \<and> (\<forall>oil_price gas_price initial_production decline_rate discount_rate df s.
        calculate_oil_gas_model fsolve oil_price gas_price initial_production decline_rate
          discount_rate = Inr (df, s)
        \<longrightarrow> CapEx df = capex_schedule \<and> Total_Investment s = sum_list capex_schedule)
   \<and> sum_list capex_schedule = 1560"
proof (intro conjI)
  have "\<bar>1 - 1.5 / 100\<bar> \<le> (2::real)" "1 / 2 \<le> \<bar>(1::real) + 10 / 100 / 12\<bar>"
    by simp_all
  from model_defined [OF this] obtain df s
    where r: "calculate_oil_gas_model fsolve 65 3.25 1000 1.5 10 = Inr (df, s)" by blast
  have len: "length (Oil_Production df) = 60" by (simp add: model_oil [OF r])
  have p1: "Oil_Production df ! 0 = 1000" using model_oil_nth [OF r, of 0] by simp
  have p2: "Oil_Production df ! 1 = 985" using model_oil_nth [OF r, of 1] by simp
  have dec: "\<forall>i. Suc i < 60 \<longrightarrow> Oil_Production df ! Suc i < Oil_Production df ! i"
  proof (intro allI impI)
    fix i :: nat assume i: "Suc i < 60"
    have "(1000::real) * (1 - 1.5 / 100) ^ Suc i < 1000 * (1 - 1.5 / 100) ^ i"
      by (rule geometric_strict_decrease) simp_all
    then show "Oil_Production df ! Suc i < Oil_Production df ! i"
      using i by (simp only: model_oil_nth [OF r i] model_oil_nth [OF r Suc_lessD [OF i]])
  qed
  show "\<exists>df s. calculate_oil_gas_model fsolve 65 3.25 1000 1.5 10 = Inr (df, s)
        \<and> length (Oil_Production df) = 60
        \<and> Oil_Production df ! 0 = 1000
        \<and> Oil_Production df ! 1 = 985
        \<and> (\<forall>i. Suc i < 60 \<longrightarrow> Oil_Production df ! Suc i < Oil_Production df ! i)
        \<and> Total_Investment s = sum_list capex_schedule"
    using r len p1 p2 dec model_capex [OF r] by blast
next
  show "\<forall>oil_price gas_price initial_production decline_rate discount_rate df s.
        calculate_oil_gas_model fsolve oil_price gas_price initial_production decline_rate
          discount_rate = Inr (df, s)
        \<longrightarrow> CapEx df = capex_schedule \<and> Total_Investment s = sum_list capex_schedule"
    using model_capex by blast
next
  show "sum_list capex_schedule = 1560" by (rule sum_capex_schedule)
qed

theorem worked_example_witness:
  "Oil_Production (fst (projr (calculate_oil_gas_model (\<lambda>f x0. Converged x0) 65 3.25 1000 1.5 10))) ! 1 = 985
   \<and> Total_Investment (snd (projr (calculate_oil_gas_model (\<lambda>f x0. Converged x0) 30 1 100 0.5 5))) = 1560"
proof -
  let ?fs = "\<lambda>(f::real \<Rightarrow> real) (x0::real). Converged x0"
  note w = worked_example [of ?fs]
  from w obtain df s where
    r: "calculate_oil_gas_model ?fs 65 3.25 1000 1.5 10 = Inr (df, s)"
    and p2: "Oil_Production df ! 1 = 985" by blast
  have "\<bar>1 - 0.5 / 100\<bar> \<le> (2::real)" "1 / 2 \<le> \<bar>(1::real) + 5 / 100 / 12\<bar>"
    by simp_all
  from model_defined [OF this] obtain df' s'
    where r': "calculate_oil_gas_model ?fs 30 1 100 0.5 5 = Inr (df', s')" by blast
  from w r' have "Total_Investment s' = sum_list capex_schedule" by blast
  moreover from w have "sum_list capex_schedule = 1560" by blast
  ultimately show ?thesis using r r' p2 by simp
qed

lemma model_months:
  assumes "calculate_oil_gas_model fs op gp ip dr disc = Inr (df, s)"
  shows "Month df = [1..<61]"
  using assms by (auto simp: calculate_oil_gas_model_def Let_def split: if_splits)

lemma model_cumulative:
  assumes "calculate_oil_gas_model fs op gp ip dr disc = Inr (df, s)"
  shows "Cumulative_Cash_Flow df = cumsum (Net_Cash_Flow df)"
  using assms by (auto simp: calculate_oil_gas_model_def Let_def split: if_splits)

lemma model_payback:
  assumes "calculate_oil_gas_model fs op gp ip dr disc = Inr (df, s)"
  shows "Payback_Months s = payback_loop 0 (Cumulative_Cash_Flow df) 60"
  using assms by (auto simp: calculate_oil_gas_model_def Let_def split: if_splits)

lemma model_columns:
  assumes "calculate_oil_gas_model fs op gp ip dr disc = Inr (df, s)"
  shows "Oil_Revenue df = map (\<lambda>x. x * op / 1000) (Oil_Production df)"
    and "Gas_Revenue df = map (\<lambda>x. x * gp / 1000) (Gas_Production df)"
    and "Total_Revenue df = map2 (+) (Oil_Revenue df) (Gas_Revenue df)"
    and "Operating_Expenses df = map (\<lambda>month. 15 * ((1 + 0.025 / 12) ^ (month - 1))) [1..<61]"
    and "Severance_Tax df = map (\<lambda>x. x * 0.075) (Total_Revenue df)"
    and "Total_OpEx df = map2 (+) (Operating_Expenses df) (Severance_Tax df)"
    and "Net_Operating_Income df = map2 (-) (Total_Revenue df) (Total_OpEx df)"
    and "Net_Cash_Flow df = map2 (-) (Net_Operating_Income df) capex_schedule"
  using assms by (auto simp: calculate_oil_gas_model_def Let_def split: if_splits)

lemma model_lengths:
  assumes "calculate_oil_gas_model fs op gp ip dr disc = Inr (df, s)"
  shows "length (Oil_Production df) = 60" and "length (Gas_Production df) = 60"
    and "length (Total_Revenue df) = 60" and "length (Net_Operating_Income df) = 60"
    and "length (Net_Cash_Flow df) = 60"
proof -
  note c = model_columns [OF assms]
  show o: "length (Oil_Production df) = 60" by (simp add: model_oil [OF assms])
  then show g: "length (Gas_Production df) = 60" by (simp add: model_gas [OF assms])
  from o g show t: "length (Total_Revenue df) = 60" by (simp add: c(1,2,3))
  then show n: "length (Net_Operating_Income df) = 60" by (simp add: c(4,5,6,7))
  then show "length (Net_Cash_Flow df) = 60" by (simp add: c(8) length_capex_schedule)
qed

lemma model_ncf_length:
  assumes "calculate_oil_gas_model fs op gp ip dr disc = Inr (df, s)"
  shows "length (Net_Cash_Flow df) = 60"
  by (rule model_lengths(5) [OF assms])

lemma model_revenue_nth:
  assumes "calculate_oil_gas_model fs op gp ip dr disc = Inr (df, s)" and "i < 60"
  shows "Total_Revenue df ! i = ip * (1 - dr / 100) ^ i * (op + 6 * gp) / 1000"
proof -
  note c = model_columns [OF assms(1)] and l = model_lengths [OF assms(1)]
  have "Total_Revenue df ! i
          = Oil_Production df ! i * op / 1000 + Oil_Production df ! i * 6 * gp / 1000"
    using assms(2) l(1,2) by (simp add: c(1,2,3) model_gas [OF assms(1)])
  then show ?thesis
    by (simp add: model_oil_nth [OF assms] algebra_simps)
qed

lemma model_ncf_nth:
  assumes "calculate_oil_gas_model fs op gp ip dr disc = Inr (df, s)" and "i < 60"
  shows "Net_Cash_Flow df ! i =
           (Total_Revenue df ! i - (15 * (1 + 0.025 / 12) ^ i + Total_Revenue df ! i * 0.075))
             - capex_schedule ! i"
proof -
  note c = model_columns [OF assms(1)] and l = model_lengths [OF assms(1)]
  have ox: "Operating_Expenses df ! i = 15 * (1 + 0.025 / 12) ^ i"
    using assms(2) by (simp add: c(4) nth_map_upt del: upt_Suc)
  have lo: "length (Operating_Expenses df) = 60" by (simp add: c(4))
  have lt: "length (Total_OpEx df) = 60" using lo l(3) by (simp add: c(5,6))
  have "Net_Cash_Flow df ! i = Net_Operating_Income df ! i - capex_schedule ! i"
    using assms(2) l(4) by (simp add: c(8) length_capex_schedule)
  also have "Net_Operating_Income df ! i = Total_Revenue df ! i - Total_OpEx df ! i"
    using assms(2) l(3) lt by (simp add: c(7))
  also have "Total_OpEx df ! i = Operating_Expenses df ! i + Severance_Tax df ! i"
    using assms(2) l(3) lo by (simp add: c(6) c(5))
  also have "Severance_Tax df ! i = Total_Revenue df ! i * 0.075"
    using assms(2) l(3) by (simp add: c(5))
  finally show ?thesis by (simp only: ox)
qed

lemma length_cumsum_from: "length (cumsum_from acc xs) = length xs"
  by (induction xs arbitrary: acc) simp_all

lemma cumsum_from_nth:
  "i < length xs \<Longrightarrow> cumsum_from acc xs ! i = acc + sum_list (take (Suc i) xs)"
proof (induction xs arbitrary: acc i)
  case Nil
  then show ?case by simp
next
  case (Cons x xs)
  show ?case
  proof (cases i)
    case 0
    then show ?thesis by simp
  next
    case (Suc j)
    with Cons.prems have "j < length xs" by simp
    from Cons.IH [OF this, of "acc + x"] Suc show ?thesis by simp
  qed
qed

lemma cumsum_nth: "i < length xs \<Longrightarrow> cumsum xs ! i = sum_list (take (Suc i) xs)"
  by (simp add: cumsum_def cumsum_from_nth)

lemma sum_list_take_nth: "m \<le> length xs \<Longrightarrow> sum_list (take m xs) = (\<Sum>k = 1..m. xs ! (k - 1))"
proof (induction m)
  case 0
  then show ?case by simp
next
  case (Suc m)
  then have "take (Suc m) xs = take m xs @ [xs ! m]"
    by (simp add: take_Suc_conv_app_nth)
  with Suc show ?case by simp
qed

lemma payback_loop_none:
  "\<forall>j<length cs. cs ! j < 0 \<Longrightarrow> payback_loop i cs d = d"
proof (induction cs arbitrary: i)
  case Nil
  then show ?case by simp
next
  case (Cons c cs)
  from Cons.prems have "c < 0" by auto
  moreover from Cons.prems have "\<forall>j<length cs. cs ! j < 0" by auto
  ultimately show ?case using Cons.IH by simp
qed

lemma payback_loop_first:
  "j < length cs \<Longrightarrow> cs ! j \<ge> 0 \<Longrightarrow> \<forall>k<j. cs ! k < 0 \<Longrightarrow> payback_loop i cs d = i + j + 1"
proof (induction cs arbitrary: i j)
  case Nil
  then show ?case by simp
next
  case (Cons c cs)
  show ?case
  proof (cases j)
    case 0
    with Cons.prems show ?thesis by simp
  next
    case (Suc j')
    from Cons.prems Suc have c: "c < 0" by auto
    from Cons.prems Suc have "j' < length cs" "cs ! j' \<ge> 0" by auto
    moreover from Cons.prems Suc have "\<forall>k<j'. cs ! k < 0" by auto
    ultimately have "payback_loop (i + 1) cs d = (i + 1) + j' + 1" by (rule Cons.IH)
    with c Suc show ?thesis by simp
  qed
qed

text \<open>
  C4. Let the projector return a result for an initial production above 0 and a decline
  rate whose fraction \<open>decline_rate / 100\<close>, the number the code raises to powers, lies
  strictly between 0 and 1 (an argument strictly between 0 and 1 is such a rate). Then
  oil production in period \<open>i + 1\<close> is \<open>initial_production * (1 - decline_rate / 100) ^ i\<close>,
  it is strictly smaller in each period than in the period before, and gas production is
  exactly 6 times oil production in every one of the 60 periods.
\<close>

theorem production_decline:
  assumes "calculate_oil_gas_model fsolve oil_price gas_price initial_production decline_rate
             discount_rate = Inr (df, s)"
    and "0 < initial_production"
    and "0 < decline_rate / 100" and "decline_rate / 100 < 1"
  shows "length (Oil_Production df) = 60 \<and> length (Gas_Production df) = 60
     \<and> (\<forall>i. Suc i < 60 \<longrightarrow> Oil_Production df ! Suc i < Oil_Production df ! i)
     \<and> (\<forall>i<60. Oil_Production df ! i = initial_production * (1 - decline_rate / 100) ^ i)
     \<and> (\<forall>i<60. Gas_Production df ! i = 6 * Oil_Production df ! i)"
proof (intro conjI allI impI)
  show len: "length (Oil_Production df) = 60" by (simp add: model_oil [OF assms(1)])
  then show "length (Gas_Production df) = 60" by (simp add: model_gas [OF assms(1)])
  show "Oil_Production df ! Suc i < Oil_Production df ! i" if "Suc i < 60" for i
  proof -
    have "initial_production * (1 - decline_rate / 100) ^ Suc i
            < initial_production * (1 - decline_rate / 100) ^ i"
      using assms(2-4) by (rule geometric_strict_decrease)
    then show ?thesis
      by (simp only: model_oil_nth [OF assms(1) that] model_oil_nth [OF assms(1) Suc_lessD [OF that]])
  qed
  show "Oil_Production df ! i = initial_production * (1 - decline_rate / 100) ^ i" if "i < 60" for i
    using that by (rule model_oil_nth [OF assms(1)])
  show "Gas_Production df ! i = 6 * Oil_Production df ! i" if "i < 60" for i
    using that len by (simp add: model_gas [OF assms(1)])
qed

text \<open>
  C7. In every returned projection the cumulative cash flow of period \<open>m\<close> is the sum of
  the net cash flows of periods 1 to \<open>m\<close>. The payback period is the least period
  \<open>m\<close> between 1 and 60 whose cumulative cash flow is at least 0 when there is one, and
  it is 60, the horizon, when the cumulative cash flow is negative in all 60 periods.
\<close>

theorem payback_period:
  assumes "calculate_oil_gas_model fsolve oil_price gas_price initial_production decline_rate
             discount_rate = Inr (df, s)"
  shows "length (Cumulative_Cash_Flow df) = 60
     \<and> (\<forall>m. 1 \<le> m \<and> m \<le> 60 \<longrightarrow>
           Cumulative_Cash_Flow df ! (m - 1) = (\<Sum>k = 1..m. Net_Cash_Flow df ! (k - 1)))
     \<and> ((\<exists>m. 1 \<le> m \<and> m \<le> 60 \<and> Cumulative_Cash_Flow df ! (m - 1) \<ge> 0) \<longrightarrow>
           Payback_Months s = (LEAST m. 1 \<le> m \<and> m \<le> 60 \<and> Cumulative_Cash_Flow df ! (m - 1) \<ge> 0))
     \<and> ((\<forall>m. 1 \<le> m \<and> m \<le> 60 \<longrightarrow> Cumulative_Cash_Flow df ! (m - 1) < 0) \<longrightarrow>
           Payback_Months s = 60)"
proof (intro conjI allI impI)
  let ?cum = "Cumulative_Cash_Flow df"
  note cum = model_cumulative [OF assms]
  note nlen = model_ncf_length [OF assms]
  show len: "length ?cum = 60"
    by (simp add: cum cumsum_def length_cumsum_from nlen)
  show "?cum ! (m - 1) = (\<Sum>k = 1..m. Net_Cash_Flow df ! (k - 1))" if "1 \<le> m \<and> m \<le> 60" for m
  proof -
    from that have "m - 1 < length (Net_Cash_Flow df)" "Suc (m - 1) = m" by (auto simp: nlen)
    then have "?cum ! (m - 1) = sum_list (take m (Net_Cash_Flow df))"
      using cumsum_nth [of "m - 1" "Net_Cash_Flow df"] by (simp add: cum)
    also have "\<dots> = (\<Sum>k = 1..m. Net_Cash_Flow df ! (k - 1))"
      using that by (intro sum_list_take_nth) (simp add: nlen)
    finally show ?thesis .
  qed
  show "Payback_Months s = (LEAST m. 1 \<le> m \<and> m \<le> 60 \<and> ?cum ! (m - 1) \<ge> 0)"
    if ex: "\<exists>m. 1 \<le> m \<and> m \<le> 60 \<and> ?cum ! (m - 1) \<ge> 0"
  proof -
    define P where "P m \<longleftrightarrow> 1 \<le> m \<and> m \<le> 60 \<and> ?cum ! (m - 1) \<ge> 0" for m
    define m0 where "m0 = (LEAST m. P m)"
    from ex have "\<exists>m. P m" by (simp add: P_def)
    then have Pm0: "P m0" unfolding m0_def by (rule LeastI_ex)
    have below: "\<not> P m" if "m < m0" for m
      using that unfolding m0_def by (rule not_less_Least)
    from Pm0 have j: "m0 - 1 < length ?cum" "?cum ! (m0 - 1) \<ge> 0" and m0: "1 \<le> m0" "m0 \<le> 60"
      by (auto simp: P_def len)
    have "\<forall>k<m0 - 1. ?cum ! k < 0"
    proof (intro allI impI)
      fix k assume k: "k < m0 - 1"
      then have "Suc k < m0" by simp
      from below [OF this] k m0 show "?cum ! k < 0" by (auto simp: P_def not_le)
    qed
    with j have "payback_loop 0 ?cum 60 = 0 + (m0 - 1) + 1" by (intro payback_loop_first)
    with m0 show ?thesis by (simp add: model_payback [OF assms] m0_def P_def)
  qed
  show "Payback_Months s = 60" if "\<forall>m. 1 \<le> m \<and> m \<le> 60 \<longrightarrow> ?cum ! (m - 1) < 0"
  proof -
    have "\<forall>j<length ?cum. ?cum ! j < 0"
    proof (intro allI impI)
      fix j assume "j < length ?cum"
      with that [rule_format, of "Suc j"] len show "?cum ! j < 0" by simp
    qed
    then show ?thesis by (simp add: model_payback [OF assms] payback_loop_none)
  qed
qed

lemma model_projr:
  assumes "calculate_oil_gas_model fs op gp ip dr disc = Inr (df, s)"
  shows "fst (projr (calculate_oil_gas_model fs op gp ip dr disc)) = df"
    and "snd (projr (calculate_oil_gas_model fs op gp ip dr disc)) = s"
  by (simp_all add: assms)

lemma capex_schedule_bounds:
  assumes "i < 60"
  shows "5 \<le> capex_schedule ! i \<and> capex_schedule ! i \<le> 500"
proof -
  have "\<forall>x\<in>set capex_schedule. 5 \<le> x \<and> x \<le> 500"
    by (simp add: capex_schedule_def)
  moreover have "capex_schedule ! i \<in> set capex_schedule"
    using assms by (simp add: length_capex_schedule)
  ultimately show ?thesis by blast
qed

theorem production_decline_witness:
  "Oil_Production (fst (projr (calculate_oil_gas_model (\<lambda>f x0. Converged x0) 65 3.25 1000 1.5 10))) ! 5
     < Oil_Production (fst (projr (calculate_oil_gas_model (\<lambda>f x0. Converged x0) 65 3.25 1000 1.5 10))) ! 4
   \<and> Gas_Production (fst (projr (calculate_oil_gas_model (\<lambda>f x0. Converged x0) 65 3.25 1000 1.5 10))) ! 1
     = 6 * 985"
proof -
  let ?fs = "\<lambda>(f::real \<Rightarrow> real) (x0::real). Converged x0"
  have "\<bar>1 - 1.5 / 100\<bar> \<le> (2::real)" "1 / 2 \<le> \<bar>(1::real) + 10 / 100 / 12\<bar>"
    by simp_all
  from model_defined [OF this] obtain df s
    where r: "calculate_oil_gas_model ?fs 65 3.25 1000 1.5 10 = Inr (df, s)" by blast
  have p: "length (Oil_Production df) = 60 \<and> length (Gas_Production df) = 60
     \<and> (\<forall>i. Suc i < 60 \<longrightarrow> Oil_Production df ! Suc i < Oil_Production df ! i)
     \<and> (\<forall>i<60. Oil_Production df ! i = 1000 * (1 - 1.5 / 100) ^ i)
     \<and> (\<forall>i<60. Gas_Production df ! i = 6 * Oil_Production df ! i)"
    by (rule production_decline [OF r]) simp_all
  from p have "Oil_Production df ! Suc 4 < Oil_Production df ! 4" by simp
  moreover from p have "Gas_Production df ! 1 = 6 * Oil_Production df ! 1" by simp
  moreover from p have "Oil_Production df ! 1 = 1000 * (1 - 1.5 / 100) ^ 1" by simp
  ultimately show ?thesis unfolding model_projr [OF r] by simp
qed

theorem payback_period_witness:
  "Payback_Months (snd (projr (calculate_oil_gas_model (\<lambda>f x0. Converged x0) 0 0 1000 1.5 10))) = 60
   \<and> Payback_Months (snd (projr (calculate_oil_gas_model (\<lambda>f x0. Converged x0) 65 3.25 100000 1.5 10))) = 1"
proof -
  let ?fs = "\<lambda>(f::real \<Rightarrow> real) (x0::real). Converged x0"
  have d: "\<bar>1 - 1.5 / 100\<bar> \<le> (2::real)" "1 / 2 \<le> \<bar>(1::real) + 10 / 100 / 12\<bar>"
    by simp_all
  from model_defined [OF d] obtain df s
    where r: "calculate_oil_gas_model ?fs 0 0 1000 1.5 10 = Inr (df, s)" by blast
  from model_defined [OF d] obtain df' s'
    where r': "calculate_oil_gas_model ?fs 65 3.25 100000 1.5 10 = Inr (df', s')" by blast
  note p = payback_period [OF r] and p' = payback_period [OF r']
  have neg: "Net_Cash_Flow df ! i < 0" if "i < 60" for i
  proof -
    define p :: real where "p = (1 + 0.025 / 12) ^ i"
    have "0 < p" by (simp add: p_def)
    moreover have "0 < capex_schedule ! i" using capex_schedule_bounds [OF that] by simp
    moreover have "Net_Cash_Flow df ! i = - (15 * p) - capex_schedule ! i"
      by (simp add: model_ncf_nth [OF r that] model_revenue_nth [OF r that] p_def)
    ultimately show ?thesis by linarith
  qed
  have "\<forall>m. 1 \<le> m \<and> m \<le> 60 \<longrightarrow> Cumulative_Cash_Flow df ! (m - 1) < 0"
  proof (intro allI impI)
    fix m :: nat assume m: "1 \<le> m \<and> m \<le> 60"
    have "(\<Sum>k = 1..m. - (Net_Cash_Flow df ! (k - 1))) > 0"
    proof (rule sum_pos)
      show "finite {1..m}" by simp
      show "{1..m} \<noteq> {}" using m by simp
      show "0 < - (Net_Cash_Flow df ! (k - 1))" if "k \<in> {1..m}" for k
        using neg [of "k - 1"] that m by auto
    qed
    then have "(\<Sum>k = 1..m. Net_Cash_Flow df ! (k - 1)) < 0" by (simp add: sum_negf)
    with p m show "Cumulative_Cash_Flow df ! (m - 1) < 0" by simp
  qed
  with p have one: "Payback_Months s = 60" by blast
  have c0: "Cumulative_Cash_Flow df' ! 0 \<ge> 0"
  proof -
    from p' have "\<forall>m. 1 \<le> m \<and> m \<le> 60 \<longrightarrow>
           Cumulative_Cash_Flow df' ! (m - 1) = (\<Sum>k = 1..m. Net_Cash_Flow df' ! (k - 1))"
      by blast
    from this [rule_format, of 1]
    have "Cumulative_Cash_Flow df' ! 0 = Net_Cash_Flow df' ! 0" by simp
    also have "\<dots> \<ge> 0"
      by (simp add: model_ncf_nth [OF r'] model_revenue_nth [OF r'] capex_schedule_def)
    finally show ?thesis .
  qed
  then have ex: "\<exists>m. 1 \<le> m \<and> m \<le> 60 \<and> Cumulative_Cash_Flow df' ! (m - 1) \<ge> 0"
    by (intro exI [of _ 1]) simp
  have "(LEAST m. 1 \<le> m \<and> m \<le> 60 \<and> Cumulative_Cash_Flow df' ! (m - 1) \<ge> 0) = (1::nat)"
    using c0 by (intro Least_equality) simp_all
  with p' ex have two: "Payback_Months s' = 1" by simp
  from one two show ?thesis unfolding model_projr [OF r] model_projr [OF r'] by simp
qed

text \<open>
  C2, as the code has it. The projector has no check of its arguments and no horizon
  argument, and it never fails with \<open>InvalidParameterError\<close>. Arguments out of the
  domain are computed on like any others: every projection the projector returns has the
  60 periods 1 to 60, with oil production \<open>initial_production * (1 - decline_rate / 100) ^ (m - 1)\<close>
  in period \<open>m\<close>, whatever the signs and sizes of the arguments; and it does return a
  projection for all prices and initial productions of magnitude up to \<open>10 ^ 9\<close>,
  negative ones and zero included, every decline rate from \<open>-100\<close> to \<open>300\<close> percent,
  the rates of 100 percent and more included, and every discount rate from 0 to
  \<open>10 ^ 9\<close>.
\<close>

theorem projector_never_rejects:
  "calculate_oil_gas_model fsolve oil_price gas_price initial_production decline_rate discount_rate
      \<noteq> Inl InvalidParameterError
   \<and> (\<forall>df s. calculate_oil_gas_model fsolve oil_price gas_price initial_production decline_rate
                 discount_rate = Inr (df, s) \<longrightarrow>
          Month df = [1..<61]
        \<and> length (Oil_Production df) = 60
        \<and> length (Net_Cash_Flow df) = 60
        \<and> (\<forall>i<60. Oil_Production df ! i = initial_production * (1 - decline_rate / 100) ^ i))
   \<and> (\<bar>oil_price\<bar> \<le> 10 ^ 9 \<and> \<bar>gas_price\<bar> \<le> 10 ^ 9 \<and> \<bar>initial_production\<bar> \<le> 10 ^ 9
        \<and> - 100 \<le> decline_rate \<and> decline_rate \<le> 300
        \<and> 0 \<le> discount_rate \<and> discount_rate \<le> 10 ^ 9 \<longrightarrow>
        (\<exists>df s. calculate_oil_gas_model fsolve oil_price gas_price initial_production decline_rate
                   discount_rate = Inr (df, s)))"
proof (intro conjI allI impI)
  let ?r = "calculate_oil_gas_model fsolve oil_price gas_price initial_production decline_rate discount_rate"
  show "?r \<noteq> Inl InvalidParameterError"
    by (simp add: calculate_oil_gas_model_def Let_def)
  fix df s assume r: "?r = Inr (df, s)"
  show "Month df = [1..<61]" by (rule model_months [OF r])
  show "length (Oil_Production df) = 60" by (rule model_lengths(1) [OF r])
  show "length (Net_Cash_Flow df) = 60" by (rule model_lengths(5) [OF r])
  show "Oil_Production df ! i = initial_production * (1 - decline_rate / 100) ^ i" if "i < 60" for i
    using that by (rule model_oil_nth [OF r])
next
  assume a: "\<bar>oil_price\<bar> \<le> 10 ^ 9 \<and> \<bar>gas_price\<bar> \<le> 10 ^ 9 \<and> \<bar>initial_production\<bar> \<le> 10 ^ 9
        \<and> - 100 \<le> decline_rate \<and> decline_rate \<le> 300
        \<and> 0 \<le> discount_rate \<and> discount_rate \<le> 10 ^ 9"
  then have "\<bar>1 - decline_rate / 100\<bar> \<le> 2" by (simp add: abs_le_iff field_simps)
  moreover from a have "1 / 2 \<le> \<bar>1 + discount_rate / 100 / 12\<bar>" by simp
  ultimately show "\<exists>df s. calculate_oil_gas_model fsolve oil_price gas_price initial_production
                     decline_rate discount_rate = Inr (df, s)"
    by (rule model_defined)
qed

theorem projector_never_rejects_witness:
  "Month (fst (projr (calculate_oil_gas_model (\<lambda>f x0. Converged x0) (- 65) (- 3.25) 0 150 10))) = [1..<61]
   \<and> Oil_Production (fst (projr (calculate_oil_gas_model (\<lambda>f x0. Converged x0) (- 65) (- 3.25) (- 1000) 150 10))) ! 1
       = 500"
proof -
  let ?fs = "\<lambda>(f::real \<Rightarrow> real) (x0::real). Converged x0"
  note a = projector_never_rejects [of ?fs "- 65" "- 3.25" 0 150 10]
  from a obtain df s where r: "calculate_oil_gas_model ?fs (- 65) (- 3.25) 0 150 10 = Inr (df, s)"
    by auto
  with a have "Month df = [1..<61]" by blast
  then have one: "Month (fst (projr (calculate_oil_gas_model ?fs (- 65) (- 3.25) 0 150 10))) = [1..<61]"
    unfolding model_projr [OF r] .
  note b = projector_never_rejects [of ?fs "- 65" "- 3.25" "- 1000" 150 10]
  from b obtain df' s'
    where r': "calculate_oil_gas_model ?fs (- 65) (- 3.25) (- 1000) 150 10 = Inr (df', s')"
    by auto
  with b have "\<forall>i<60. Oil_Production df' ! i = (- 1000) * (1 - 150 / 100) ^ i" by blast
  then have "Oil_Production df' ! 1 = (- 1000) * (1 - 150 / 100) ^ 1" by simp
  then have "Oil_Production df' ! 1 = 500" by simp
  then have two: "Oil_Production (fst (projr (calculate_oil_gas_model ?fs (- 65) (- 3.25) (- 1000) 150 10))) ! 1 = 500"
    unfolding model_projr [OF r'] .
  from one two show ?thesis by (intro conjI)
qed

text \<open>
  C2 as stated fails: with a negative oil price, a negative gas price, initial
  production 0 and a decline rate of 150 percent the projector returns a projection.
\<close>

theorem invalid_parameters_counterexample:
  "\<not> isl (calculate_oil_gas_model (\<lambda>f x0. Converged x0) (- 65) (- 3.25) 0 150 10)
   \<and> calculate_oil_gas_model (\<lambda>f x0. Converged x0) (- 65) (- 3.25) 0 150 10
       \<noteq> Inl InvalidParameterError"
proof -
  let ?fs = "\<lambda>(f::real \<Rightarrow> real) (x0::real). Converged x0"
  have "\<bar>1 - 150 / 100\<bar> \<le> (2::real)" "1 / 2 \<le> \<bar>(1::real) + 10 / 100 / 12\<bar>"
    by simp_all
  from model_defined [OF this] obtain df s
    where r: "calculate_oil_gas_model ?fs (- 65) (- 3.25) 0 150 10 = Inr (df, s)" by blast
  show ?thesis unfolding r by simp
qed

lemma model_npv:
  assumes "calculate_oil_gas_model fs op gp ip dr disc = Inr (df, s)"
  shows "PV_Factor df = map (\<lambda>month. (1 + disc / 100 / 12) powi (- int month)) [1..<61]"
    and "PV_Cash_Flow df = map2 (*) (Net_Cash_Flow df) (PV_Factor df)"
    and "NPV s = sum_list (PV_Cash_Flow df)"
  using assms by (auto simp: calculate_oil_gas_model_def Let_def split: if_splits)

lemma model_ncf_independent:
  assumes "calculate_oil_gas_model fs op gp ip dr d1 = Inr (df1, s1)"
    and "calculate_oil_gas_model fs' op gp ip dr d2 = Inr (df2, s2)"
  shows "Net_Cash_Flow df2 = Net_Cash_Flow df1"
proof (rule nth_equalityI)
  show "length (Net_Cash_Flow df2) = length (Net_Cash_Flow df1)"
    by (simp add: model_lengths(5) [OF assms(1)] model_lengths(5) [OF assms(2)])
  fix i assume "i < length (Net_Cash_Flow df2)"
  then have i: "i < 60" by (simp add: model_lengths(5) [OF assms(2)])
  show "Net_Cash_Flow df2 ! i = Net_Cash_Flow df1 ! i"
    by (simp only: model_ncf_nth [OF assms(1) i] model_ncf_nth [OF assms(2) i]
          model_revenue_nth [OF assms(1) i] model_revenue_nth [OF assms(2) i])
qed

lemma sum_list_map2_months:
  fixes xs :: "real list"
  assumes "length xs = n"
  shows "sum_list (map2 (*) xs (map g [1..<Suc n])) = (\<Sum>m = 1..n. xs ! (m - 1) * g m)"
proof -
  let ?ys = "map2 (*) xs (map g [1..<Suc n])"
  have len: "length ?ys = n" using assms by (simp del: upt_Suc)
  have "sum_list ?ys = (\<Sum>i = 0..<n. ?ys ! i)"
    by (simp only: sum_list_sum_nth [of ?ys] len)
  also have "\<dots> = (\<Sum>i = 0..<n. xs ! i * g (Suc i))"
    using assms by (intro sum.cong) (simp_all add: nth_map_upt del: upt_Suc)
  also have "\<dots> = (\<Sum>m = 1..n. xs ! (m - 1) * g m)"
    by (rule sum.reindex_bij_witness [of _ "\<lambda>m. m - 1" Suc]) auto
  finally show ?thesis .
qed

lemma model_npv_sum:
  assumes "calculate_oil_gas_model fs op gp ip dr disc = Inr (df, s)"
  shows "NPV s = (\<Sum>m = 1..60. Net_Cash_Flow df ! (m - 1) * (1 + disc / 100 / 12) powi (- int m))"
proof -
  note n = model_npv [OF assms]
  have "NPV s = sum_list (map2 (*) (Net_Cash_Flow df)
                  (map (\<lambda>month. (1 + disc / 100 / 12) powi (- int month)) [1..<Suc 60]))"
    by (simp only: n) simp
  then show ?thesis
    by (simp only: sum_list_map2_months [OF model_lengths(5) [OF assms]])
qed

lemma model_npv_sum_lessThan:
  assumes "calculate_oil_gas_model fs op gp ip dr disc = Inr (df, s)"
  shows "NPV s = (\<Sum>i<60. Net_Cash_Flow df ! i * (1 + disc / 100 / 12) powi (- int (Suc i)))"
proof -
  have "(\<Sum>m = 1..60. Net_Cash_Flow df ! (m - 1) * (1 + disc / 100 / 12) powi (- int m))
          = (\<Sum>i<60. Net_Cash_Flow df ! i * (1 + disc / 100 / 12) powi (- int (Suc i)))"
    by (rule sum.reindex_bij_witness [of _ Suc "\<lambda>m. m - 1"]) auto
  then show ?thesis by (simp only: model_npv_sum [OF assms])
qed

lemma outlays_then_returns:
  fixes c :: "nat \<Rightarrow> real" and x1 x2 :: real
  assumes x: "0 < x1" "x1 < x2"
    and out: "\<And>i. i < k \<Longrightarrow> i < n \<Longrightarrow> c i \<le> 0"
    and ret: "\<And>i. k \<le> i \<Longrightarrow> i < n \<Longrightarrow> 0 \<le> c i"
    and pos: "\<exists>i. k \<le> i \<and> i < n \<and> 0 < c i"
    and nn: "0 \<le> (\<Sum>i<n. c i * x1 powi (- int (Suc i)))"
  shows "(\<Sum>i<n. c i * x2 powi (- int (Suc i))) < (\<Sum>i<n. c i * x1 powi (- int (Suc i)))"
proof -
  define g where "g y = (\<Sum>i<n. c i * y powi (int k - int (Suc i)))" for y :: real
  have split: "(\<Sum>i<n. c i * y powi (- int (Suc i))) = y powi (- int k) * g y" if "0 < y" for y
  proof -
    have t: "c i * y powi (- int (Suc i)) = y powi (- int k) * (c i * y powi (int k - int (Suc i)))" for i
    proof -
      from that have "y \<noteq> 0" by simp
      then have "y powi (- int k + (int k - int (Suc i))) = y powi (- int k) * y powi (int k - int (Suc i))"
        by (intro power_int_add) simp
      then show ?thesis by simp
    qed
    have "(\<Sum>i<n. c i * y powi (- int (Suc i)))
            = (\<Sum>i<n. y powi (- int k) * (c i * y powi (int k - int (Suc i))))"
      by (rule sum.cong) (simp_all only: t)
    also have "\<dots> = y powi (- int k) * g y"
      by (simp only: g_def sum_distrib_left)
    finally show ?thesis .
  qed
  have le: "c i * x2 powi (int k - int (Suc i)) \<le> c i * x1 powi (int k - int (Suc i))"
    if "i < n" for i
  proof (cases "i < k")
    case True
    then have "0 \<le> int k - int (Suc i)" by simp
    with x have "x1 powi (int k - int (Suc i)) \<le> x2 powi (int k - int (Suc i))"
      by (intro power_int_mono) simp_all
    then show ?thesis using out [OF True that] by (intro mult_left_mono_neg)
  next
    case False
    then have "int k - int (Suc i) < 0" by simp
    with x have "x2 powi (int k - int (Suc i)) < x1 powi (int k - int (Suc i))"
      by (intro power_int_strict_antimono) simp_all
    moreover from False that have "0 \<le> c i" by (intro ret) simp_all
    ultimately show ?thesis by (intro mult_left_mono) simp_all
  qed
  have less: "\<exists>i\<in>{..<n}. c i * x2 powi (int k - int (Suc i)) < c i * x1 powi (int k - int (Suc i))"
  proof -
    from pos obtain i where i: "k \<le> i" "i < n" "0 < c i" by blast
    then have "int k - int (Suc i) < 0" by simp
    with x have "x2 powi (int k - int (Suc i)) < x1 powi (int k - int (Suc i))"
      by (intro power_int_strict_antimono) simp_all
    with i(3) have "c i * x2 powi (int k - int (Suc i)) < c i * x1 powi (int k - int (Suc i))"
      by (intro mult_strict_left_mono)
    with i(2) show ?thesis by blast
  qed
  have g_less: "g x2 < g x1"
    unfolding g_def using le less by (intro sum_strict_mono_ex1) simp_all
  from x have x2: "0 < x2" by simp
  have p1: "0 < x1 powi (- int k)" and p2: "0 < x2 powi (- int k)"
    using x by simp_all
  have p21: "x2 powi (- int k) \<le> x1 powi (- int k)"
  proof -
    from x have "x1 ^ k \<le> x2 ^ k" by (intro power_mono) simp_all
    moreover from x have "0 < x1 ^ k" by simp
    ultimately have "inverse (x2 ^ k) \<le> inverse (x1 ^ k)" by (rule le_imp_inverse_le)
    then show ?thesis by (simp add: power_int_minus)
  qed
  have F1: "(\<Sum>i<n. c i * x1 powi (- int (Suc i))) = x1 powi (- int k) * g x1"
    by (rule split [OF x(1)])
  have F2: "(\<Sum>i<n. c i * x2 powi (- int (Suc i))) = x2 powi (- int k) * g x2"
    by (rule split [OF x2])
  show ?thesis
  proof (cases "0 \<le> g x2")
    case True
    from p21 True have "x2 powi (- int k) * g x2 \<le> x1 powi (- int k) * g x2"
      by (rule mult_right_mono)
    also from g_less p1 have "\<dots> < x1 powi (- int k) * g x1"
      by (intro mult_strict_left_mono)
    finally show ?thesis by (simp only: F1 F2)
  next
    case False
    then have "g x2 < 0" by simp
    with p2 have "x2 powi (- int k) * g x2 < 0" by (simp add: mult_pos_neg)
    also note nn
    finally show ?thesis by (simp only: F2)
  qed
qed

text \<open>
  C9, as the code has it. The net cash flows of a projection do not depend on the discount
  rate, and the NPV is the sum over the periods \<open>m = 1..60\<close> of net cash flow times the
  discount factor \<open>(1 + discount_rate / 100 / 12) powi (- m)\<close>. Hold the other four
  arguments fixed. Let the net cash flows be outlays followed by returns: those of the
  first \<open>k\<close> periods are not positive, those of the later periods are not negative and
  one of them is above 0 (with \<open>k = 0\<close> there is no outlay). Let the NPV at the smaller
  of two discount rates above \<open>-1200\<close> be not negative, which it always is for
  \<open>k = 0\<close>. Then the NPV at the larger rate is strictly smaller.
\<close>

theorem npv_decreases_with_discount_rate:
  assumes r1: "calculate_oil_gas_model fsolve oil_price gas_price initial_production decline_rate
                 d1 = Inr (df1, s1)"
    and r2: "calculate_oil_gas_model fsolve oil_price gas_price initial_production decline_rate
                 d2 = Inr (df2, s2)"
    and out: "\<forall>m. 1 \<le> m \<and> m \<le> k \<longrightarrow> Net_Cash_Flow df1 ! (m - 1) \<le> 0"
    and ret: "\<forall>m. k < m \<and> m \<le> 60 \<longrightarrow> 0 \<le> Net_Cash_Flow df1 ! (m - 1)"
    and pos: "\<exists>m. k < m \<and> m \<le> 60 \<and> 0 < Net_Cash_Flow df1 ! (m - 1)"
    and d1: "- 1200 < d1" and d12: "d1 < d2"
    and nn: "k = 0 \<or> 0 \<le> NPV s1"
  shows "Net_Cash_Flow df2 = Net_Cash_Flow df1
     \<and> NPV s1 = (\<Sum>m = 1..60. Net_Cash_Flow df1 ! (m - 1) * (1 + d1 / 100 / 12) powi (- int m))
     \<and> NPV s2 = (\<Sum>m = 1..60. Net_Cash_Flow df1 ! (m - 1) * (1 + d2 / 100 / 12) powi (- int m))
     \<and> NPV s2 < NPV s1"
proof -
  let ?c = "\<lambda>i. Net_Cash_Flow df1 ! i"
  let ?b1 = "1 + d1 / 100 / 12" and ?b2 = "1 + d2 / 100 / 12"
  have same: "Net_Cash_Flow df2 = Net_Cash_Flow df1" by (rule model_ncf_independent [OF r1 r2])
  have n1: "NPV s1 = (\<Sum>m = 1..60. ?c (m - 1) * ?b1 powi (- int m))"
    by (rule model_npv_sum [OF r1])
  have n2: "NPV s2 = (\<Sum>m = 1..60. ?c (m - 1) * ?b2 powi (- int m))"
    using model_npv_sum [OF r2] by (simp only: same)
  have l1: "NPV s1 = (\<Sum>i<60. ?c i * ?b1 powi (- int (Suc i)))"
    by (rule model_npv_sum_lessThan [OF r1])
  have l2: "NPV s2 = (\<Sum>i<60. ?c i * ?b2 powi (- int (Suc i)))"
    using model_npv_sum_lessThan [OF r2] by (simp only: same)
  have b: "0 < ?b1" "?b1 < ?b2" using d1 d12 by simp_all
  have o: "?c i \<le> 0" if "i < k" "i < 60" for i
    using out [rule_format, of "Suc i"] that by simp
  have r: "0 \<le> ?c i" if "k \<le> i" "i < 60" for i
    using ret [rule_format, of "Suc i"] that by simp
  have p: "\<exists>i. k \<le> i \<and> i < 60 \<and> 0 < ?c i"
  proof -
    from pos obtain m where "k < m" "m \<le> 60" "0 < ?c (m - 1)" by blast
    then have "k \<le> m - 1 \<and> m - 1 < 60 \<and> 0 < ?c (m - 1)" by auto
    then show ?thesis by blast
  qed
  have nonneg: "0 \<le> (\<Sum>i<60. ?c i * ?b1 powi (- int (Suc i)))"
  proof (cases "k = 0")
    case True
    have "0 \<le> ?c i * ?b1 powi (- int (Suc i))" if "i \<in> {..<60}" for i
    proof -
      from that True have "0 \<le> ?c i" by (intro r) simp_all
      moreover from b(1) have "0 \<le> ?b1 powi (- int (Suc i))" by simp
      ultimately show ?thesis by (rule mult_nonneg_nonneg)
    qed
    then show ?thesis by (rule sum_nonneg)
  next
    case False
    with nn l1 show ?thesis by simp
  qed
  have "(\<Sum>i<60. ?c i * ?b2 powi (- int (Suc i))) < (\<Sum>i<60. ?c i * ?b1 powi (- int (Suc i)))"
    using b o r p nonneg by (rule outlays_then_returns)
  with l1 l2 have "NPV s2 < NPV s1" by simp
  with same n1 n2 show ?thesis by blast
qed

text \<open>
  The worked example: outlays in periods 1 to 4, returns in periods 5 to 60, and an NPV
  above 100 at its discount rate of 10 percent.
\<close>

lemma geometric_sum_le:
  fixes r :: real
  assumes "0 \<le> r" "r < 1"
  shows "(\<Sum>j<n. r ^ j) \<le> 1 / (1 - r)"
proof -
  have "(1 - r) * (\<Sum>j<n. r ^ j) = 1 - r ^ n" by (simp only: one_diff_power_eq)
  also have "\<dots> \<le> 1" using assms by simp
  finally have "(1 - r) * (\<Sum>j<n. r ^ j) \<le> 1" .
  with assms show ?thesis by (simp add: field_simps)
qed

lemma worked_example_flow:
  assumes r: "calculate_oil_gas_model fs 65 3.25 1000 1.5 d = Inr (df, s)" and i: "i < 60"
  shows "Net_Cash_Flow df ! i
           = 6253 / 80 * (197 / 200) ^ i - 15 * (481 / 480) ^ i - capex_schedule ! i"
  by (simp add: model_ncf_nth [OF r i] model_revenue_nth [OF r i] algebra_simps)

lemma capex_schedule_tail: "6 \<le> i \<Longrightarrow> i < 60 \<Longrightarrow> capex_schedule ! i \<le> 10"
  by (simp add: capex_schedule_def nth_append)

lemma decline_power_bounds:
  assumes "i < 60"
  shows "2 / 5 \<le> (197 / 200 :: real) ^ i" and "(197 / 200 :: real) ^ i \<le> 1"
proof -
  have "(2 / 5 :: real) \<le> (197 / 200) ^ 60" by (simp add: power_divide)
  also have "\<dots> \<le> (197 / 200) ^ i" using assms by (intro power_decreasing) simp_all
  finally show "2 / 5 \<le> (197 / 200 :: real) ^ i" .
  show "(197 / 200 :: real) ^ i \<le> 1" by (intro power_le_one) simp_all
qed

lemma escalation_power_bounds:
  assumes "i < 60"
  shows "1 \<le> (481 / 480 :: real) ^ i" and "(481 / 480 :: real) ^ i \<le> 57 / 50"
proof -
  show "1 \<le> (481 / 480 :: real) ^ i" by (intro one_le_power) simp
  have "(481 / 480 :: real) ^ i \<le> (481 / 480) ^ 60" using assms by (intro power_increasing) simp_all
  also have "\<dots> \<le> 57 / 50" by (simp add: power_divide)
  finally show "(481 / 480 :: real) ^ i \<le> 57 / 50" .
qed

lemma worked_example_outlays:
  assumes r: "calculate_oil_gas_model fs 65 3.25 1000 1.5 d = Inr (df, s)"
  shows "Net_Cash_Flow df ! 0 = - 436.8375"
    and "- 239 \<le> Net_Cash_Flow df ! 1 \<and> Net_Cash_Flow df ! 1 \<le> - 238"
    and "- 140 \<le> Net_Cash_Flow df ! 2 \<and> Net_Cash_Flow df ! 2 \<le> - 139"
    and "- 41 \<le> Net_Cash_Flow df ! 3 \<and> Net_Cash_Flow df ! 3 \<le> - 40"
  by (simp_all add: worked_example_flow [OF r] capex_schedule_def power_divide
        eval_nat_numeral)

lemma worked_example_returns:
  assumes r: "calculate_oil_gas_model fs 65 3.25 1000 1.5 d = Inr (df, s)"
    and i: "4 \<le> i" "i < 60"
  shows "0 \<le> Net_Cash_Flow df ! i" and "Net_Cash_Flow df ! i \<le> 59"
proof -
  note f = worked_example_flow [OF r i(2)]
  note q = decline_power_bounds [OF i(2)] and p = escalation_power_bounds [OF i(2)]
  from capex_schedule_bounds [OF i(2)] have c5: "5 \<le> capex_schedule ! i" by simp
  from f q(2) p(1) c5 show "Net_Cash_Flow df ! i \<le> 59" by linarith
  show "0 \<le> Net_Cash_Flow df ! i"
  proof (cases "6 \<le> i")
    case True
    from capex_schedule_tail [OF True i(2)] f q(1) p(2) show ?thesis by linarith
  next
    case False
    with i(1) have "i = 4 \<or> i = 5" by auto
    then show ?thesis
      by (auto simp: worked_example_flow [OF r] capex_schedule_def power_divide eval_nat_numeral)
  qed
qed

lemma sum_capex_nth: "(\<Sum>i<60. capex_schedule ! i) = 1560"
proof -
  have "sum_list capex_schedule = (\<Sum>i = 0..<length capex_schedule. capex_schedule ! i)"
    by (rule sum_list_sum_nth)
  then show ?thesis
    by (simp only: sum_capex_schedule length_capex_schedule lessThan_atLeast0)
qed

lemma worked_example_npv_nonneg:
  assumes r: "calculate_oil_gas_model fs 65 3.25 1000 1.5 10 = Inr (df, s)"
  shows "100 \<le> NPV s"
proof -
  let ?c = "\<lambda>i. Net_Cash_Flow df ! i"
  define X :: real where "X = (\<Sum>i<60. (591 / 605) ^ i)"
  define Y :: real where "Y = (\<Sum>i<60. (481 / 484) ^ i)"
  have base: "(1 + 10 / 100 / 12 :: real) = 121 / 120" by simp
  have npv: "NPV s = (\<Sum>i<60. ?c i * (121 / 120) powi (- int (Suc i)))"
    using model_npv_sum_lessThan [OF r] by (simp only: base)
  have lb: "6253 / 80 * (120 / 121) * (591 / 605) ^ i - 15 * (120 / 121) * (481 / 484) ^ i
                - capex_schedule ! i \<le> ?c i * (121 / 120) powi (- int (Suc i))"
    if i: "i \<in> {..<60}" for i
  proof -
    from i have i60: "i < 60" by simp
    define w :: real where "w = inverse ((121 / 120) ^ Suc i)"
    have w: "0 < w" "w \<le> 1"
    proof -
      show "0 < w" by (simp add: w_def)
      have "1 \<le> (121 / 120 :: real) ^ Suc i" by (intro one_le_power) simp
      then show "w \<le> 1" unfolding w_def by (intro inverse_le_1_iff [THEN iffD2]) simp
    qed
    have pw: "(121 / 120 :: real) powi (- int (Suc i)) = w"
      by (simp only: w_def power_int_minus power_int_of_nat)
    have x: "(197 / 200) ^ i * w = 120 / 121 * (591 / 605 :: real) ^ i"
    proof -
      have "(591 / 605 :: real) = (197 / 200) / (121 / 120)" by simp
      then have "(591 / 605 :: real) ^ i = (197 / 200) ^ i / (121 / 120) ^ i"
        by (simp only: power_divide)
      then show ?thesis by (simp add: w_def field_simps)
    qed
    have y: "(481 / 480) ^ i * w = 120 / 121 * (481 / 484 :: real) ^ i"
    proof -
      have "(481 / 484 :: real) = (481 / 480) / (121 / 120)" by simp
      then have "(481 / 484 :: real) ^ i = (481 / 480) ^ i / (121 / 120) ^ i"
        by (simp only: power_divide)
      then show ?thesis by (simp add: w_def field_simps)
    qed
    from capex_schedule_bounds [OF i60] have "0 \<le> capex_schedule ! i" by simp
    with w(2) have cw: "capex_schedule ! i * w \<le> capex_schedule ! i"
      by (simp add: mult_left_le)
    have "?c i * w = 6253 / 80 * ((197 / 200) ^ i * w) - 15 * ((481 / 480) ^ i * w)
                       - capex_schedule ! i * w"
      by (simp only: worked_example_flow [OF r i60]) (simp add: algebra_simps)
    also have "\<dots> = 6253 / 80 * (120 / 121) * (591 / 605) ^ i
                       - 15 * (120 / 121) * (481 / 484) ^ i - capex_schedule ! i * w"
      by (simp only: x y)
    finally have e: "?c i * w = 6253 / 80 * (120 / 121) * (591 / 605) ^ i
                       - 15 * (120 / 121) * (481 / 484) ^ i - capex_schedule ! i * w" .
    from e cw show ?thesis unfolding pw by linarith
  qed
  have "(\<Sum>i<60. 6253 / 80 * (120 / 121) * (591 / 605) ^ i - 15 * (120 / 121) * (481 / 484) ^ i
                - capex_schedule ! i) \<le> (\<Sum>i<60. ?c i * (121 / 120) powi (- int (Suc i)))"
    by (rule sum_mono) (rule lb)
  moreover have "(\<Sum>i<60. 6253 / 80 * (120 / 121) * (591 / 605) ^ i
                    - 15 * (120 / 121) * (481 / 484) ^ i - capex_schedule ! i)
                 = 6253 / 80 * (120 / 121) * X - 15 * (120 / 121) * Y - 1560"
    by (simp only: sum_subtractf sum_distrib_left [symmetric] X_def Y_def sum_capex_nth)
  ultimately have lower: "6253 / 80 * (120 / 121) * X - 15 * (120 / 121) * Y - 1560 \<le> NPV s"
    by (simp only: npv)
  have X: "1815 / 56 \<le> X"
  proof -
    have p: "(591 / 605 :: real) ^ 60 \<le> 1 / 4" by (simp add: power_divide)
    have "X = (1 - (591 / 605) ^ 60) / (1 - 591 / 605)"
      unfolding X_def by (subst sum_gp_strict) simp
    with p show ?thesis by (simp add: field_simps)
  qed
  have Y: "Y \<le> 3872 / 75"
  proof -
    have p: "17 / 25 \<le> (481 / 484 :: real) ^ 60" by (simp add: power_divide)
    have "Y = (1 - (481 / 484) ^ 60) / (1 - 481 / 484)"
      unfolding Y_def by (subst sum_gp_strict) simp
    with p show ?thesis by (simp add: field_simps)
  qed
  from lower X Y show ?thesis by linarith
qed

lemma sum_split_outlays:
  fixes f :: "nat \<Rightarrow> real"
  shows "(\<Sum>i<60. f i) = f 0 + f 1 + f 2 + f 3 + (\<Sum>i = 4..<60. f i)"
proof -
  have "(\<Sum>i<60. f i) = (\<Sum>i = 0..<4. f i) + (\<Sum>i = 4..<60. f i)"
    by (simp only: lessThan_atLeast0 sum.atLeastLessThan_concat [of 0 4 60 f, symmetric])
  moreover have "(\<Sum>i = 0..<4. f i) = f 0 + f 1 + f 2 + f 3"
    by (simp add: eval_nat_numeral)
  ultimately show ?thesis by simp
qed

lemma discount_tail_le:
  fixes r :: real
  assumes "0 \<le> r" "r < 1"
  shows "(\<Sum>i = 4..<60. r ^ Suc i) \<le> r ^ 5 / (1 - r)"
proof -
  have "(\<Sum>i = 4..<60. r ^ Suc i) = (\<Sum>j = 0..<56. r ^ Suc (j + 4))"
    using sum.shift_bounds_nat_ivl [of "\<lambda>i. r ^ Suc i" 0 4 56] by simp
  also have "\<dots> = (\<Sum>j<56. r ^ 5 * r ^ j)"
    by (simp only: lessThan_atLeast0 [symmetric]) (simp add: power_add [symmetric])
  also have "\<dots> = r ^ 5 * (\<Sum>j<56. r ^ j)" by (simp only: sum_distrib_left)
  also have "\<dots> \<le> r ^ 5 * (1 / (1 - r))"
    using assms by (intro mult_left_mono geometric_sum_le) simp_all
  finally show ?thesis by simp
qed


lemma worked_example_npv_500:
  assumes r: "calculate_oil_gas_model fs 65 3.25 1000 1.5 500 = Inr (df, s)"
  shows "NPV s \<le> - 450"
proof -
  let ?c = "\<lambda>i. Net_Cash_Flow df ! i"
  let ?u = "\<lambda>i. (12 / 17 :: real) ^ Suc i"
  have pw: "(1 + 500 / 100 / 12 :: real) powi (- int (Suc i)) = ?u i" for i
  proof -
    have b: "(1 + 500 / 100 / 12 :: real) = 17 / 12" by simp
    have inv: "inverse (17 / 12 :: real) = 12 / 17" by simp
    have "(17 / 12 :: real) powi (- int (Suc i)) = inverse ((17 / 12) powi int (Suc i))"
      by (rule power_int_minus)
    also have "\<dots> = inverse ((17 / 12) ^ Suc i)" by (simp only: power_int_of_nat)
    also have "\<dots> = inverse (17 / 12) ^ Suc i" by (rule power_inverse [symmetric])
    finally show ?thesis by (simp only: b inv)
  qed
  have npv: "NPV s = (\<Sum>i<60. ?c i * ?u i)"
    using model_npv_sum_lessThan [OF r] by (simp only: pw)
  note o = worked_example_outlays [OF r]
  have tail: "(\<Sum>i = 4..<60. ?c i * ?u i) \<le> 59 * ((12 / 17) ^ 5 / (1 - 12 / 17))"
  proof -
    have "(\<Sum>i = 4..<60. ?c i * ?u i) \<le> (\<Sum>i = 4..<60. 59 * ?u i)"
    proof (rule sum_mono)
      fix i :: nat assume "i \<in> {4..<60}"
      then have "?c i \<le> 59" by (intro worked_example_returns(2) [OF r]) simp_all
      then show "?c i * ?u i \<le> 59 * ?u i" by (intro mult_right_mono) simp_all
    qed
    also have "\<dots> = 59 * (\<Sum>i = 4..<60. ?u i)" by (simp only: sum_distrib_left)
    also have "\<dots> \<le> 59 * ((12 / 17) ^ 5 / (1 - 12 / 17))"
      by (intro mult_left_mono discount_tail_le) simp_all
    finally show ?thesis .
  qed
  have head: "?c 0 * ?u 0 + ?c 1 * ?u 1 + ?c 2 * ?u 2 + ?c 3 * ?u 3
                \<le> - 436.8375 * (12 / 17) - 238 * (12 / 17) ^ 2 - 139 * (12 / 17) ^ 3
                    - 40 * (12 / 17) ^ 4"
  proof -
    have "?c 1 * ?u 1 \<le> - 238 * ?u 1" using o(2) by (intro mult_right_mono) simp_all
    moreover have "?c 2 * ?u 2 \<le> - 139 * ?u 2" using o(3) by (intro mult_right_mono) simp_all
    moreover have "?c 3 * ?u 3 \<le> - 40 * ?u 3" using o(4) by (intro mult_right_mono) simp_all
    moreover have "?c 0 * ?u 0 = - 436.8375 * ?u 0" by (simp only: o(1))
    ultimately show ?thesis by (simp add: eval_nat_numeral)
  qed
  have "NPV s = ?c 0 * ?u 0 + ?c 1 * ?u 1 + ?c 2 * ?u 2 + ?c 3 * ?u 3
                  + (\<Sum>i = 4..<60. ?c i * ?u i)"
    by (simp only: npv sum_split_outlays [of "\<lambda>i. ?c i * ?u i"])
  with head tail have "NPV s \<le> - 436.8375 * (12 / 17) - 238 * (12 / 17) ^ 2 - 139 * (12 / 17) ^ 3
                    - 40 * (12 / 17) ^ 4 + 59 * ((12 / 17) ^ 5 / (1 - 12 / 17))"
    by linarith
  also have "\<dots> \<le> - 450" by (simp add: power_divide)
  finally show ?thesis .
qed

lemma worked_example_npv_1000:
  assumes r: "calculate_oil_gas_model fs 65 3.25 1000 1.5 1000 = Inr (df, s)"
  shows "- 340 \<le> NPV s"
proof -
  let ?c = "\<lambda>i. Net_Cash_Flow df ! i"
  let ?v = "\<lambda>i. (6 / 11 :: real) ^ Suc i"
  have pw: "(1 + 1000 / 100 / 12 :: real) powi (- int (Suc i)) = ?v i" for i
  proof -
    have b: "(1 + 1000 / 100 / 12 :: real) = 11 / 6" by simp
    have inv: "inverse (11 / 6 :: real) = 6 / 11" by simp
    have "(11 / 6 :: real) powi (- int (Suc i)) = inverse ((11 / 6) powi int (Suc i))"
      by (rule power_int_minus)
    also have "\<dots> = inverse ((11 / 6) ^ Suc i)" by (simp only: power_int_of_nat)
    also have "\<dots> = inverse (11 / 6) ^ Suc i" by (rule power_inverse [symmetric])
    finally show ?thesis by (simp only: b inv)
  qed
  have npv: "NPV s = (\<Sum>i<60. ?c i * ?v i)"
    using model_npv_sum_lessThan [OF r] by (simp only: pw)
  note o = worked_example_outlays [OF r]
  have tail: "0 \<le> (\<Sum>i = 4..<60. ?c i * ?v i)"
  proof (rule sum_nonneg)
    fix i :: nat assume "i \<in> {4..<60}"
    then have "0 \<le> ?c i" by (intro worked_example_returns(1) [OF r]) simp_all
    then show "0 \<le> ?c i * ?v i" by (intro mult_nonneg_nonneg) simp_all
  qed
  have head: "- 436.8375 * (6 / 11) - 239 * (6 / 11) ^ 2 - 140 * (6 / 11) ^ 3 - 41 * (6 / 11) ^ 4
                \<le> ?c 0 * ?v 0 + ?c 1 * ?v 1 + ?c 2 * ?v 2 + ?c 3 * ?v 3"
  proof -
    have "- 239 * ?v 1 \<le> ?c 1 * ?v 1" using o(2) by (intro mult_right_mono) simp_all
    moreover have "- 140 * ?v 2 \<le> ?c 2 * ?v 2" using o(3) by (intro mult_right_mono) simp_all
    moreover have "- 41 * ?v 3 \<le> ?c 3 * ?v 3" using o(4) by (intro mult_right_mono) simp_all
    moreover have "?c 0 * ?v 0 = - 436.8375 * ?v 0" by (simp only: o(1))
    ultimately show ?thesis by (simp add: eval_nat_numeral)
  qed
  have "NPV s = ?c 0 * ?v 0 + ?c 1 * ?v 1 + ?c 2 * ?v 2 + ?c 3 * ?v 3
                  + (\<Sum>i = 4..<60. ?c i * ?v i)"
    by (simp only: npv sum_split_outlays [of "\<lambda>i. ?c i * ?v i"])
  with head tail have "- 436.8375 * (6 / 11) - 239 * (6 / 11) ^ 2 - 140 * (6 / 11) ^ 3
                         - 41 * (6 / 11) ^ 4 \<le> NPV s"
    by linarith
  moreover have "(- 340 :: real) \<le> - 436.8375 * (6 / 11) - 239 * (6 / 11) ^ 2 - 140 * (6 / 11) ^ 3
                         - 41 * (6 / 11) ^ 4"
    by (simp add: power_divide)
  ultimately show ?thesis by linarith
qed

theorem npv_decreases_with_discount_rate_witness:
  "NPV (snd (projr (calculate_oil_gas_model (\<lambda>f x0. Converged x0) 65 3.25 1000 1.5 12)))
     < NPV (snd (projr (calculate_oil_gas_model (\<lambda>f x0. Converged x0) 65 3.25 1000 1.5 10)))"
proof -
  let ?fs = "\<lambda>(f::real \<Rightarrow> real) (x0::real). Converged x0"
  have "\<bar>1 - 1.5 / 100\<bar> \<le> (2::real)" "1 / 2 \<le> \<bar>(1::real) + 10 / 100 / 12\<bar>"
    by simp_all
  from model_defined [OF this] obtain df1 s1
    where r1: "calculate_oil_gas_model ?fs 65 3.25 1000 1.5 10 = Inr (df1, s1)" by blast
  have "\<bar>1 - 1.5 / 100\<bar> \<le> (2::real)" "1 / 2 \<le> \<bar>(1::real) + 12 / 100 / 12\<bar>"
    by simp_all
  from model_defined [OF this] obtain df2 s2
    where r2: "calculate_oil_gas_model ?fs 65 3.25 1000 1.5 12 = Inr (df2, s2)" by blast
  note o = worked_example_outlays [OF r1]
  have out: "\<forall>m. 1 \<le> m \<and> m \<le> 4 \<longrightarrow> Net_Cash_Flow df1 ! (m - 1) \<le> 0"
  proof (intro allI impI)
    fix m :: nat assume "1 \<le> m \<and> m \<le> 4"
    then have "m - 1 = 0 \<or> m - 1 = 1 \<or> m - 1 = 2 \<or> m - 1 = 3" by auto
    with o show "Net_Cash_Flow df1 ! (m - 1) \<le> 0" by auto
  qed
  have ret: "\<forall>m. 4 < m \<and> m \<le> 60 \<longrightarrow> 0 \<le> Net_Cash_Flow df1 ! (m - 1)"
  proof (intro allI impI)
    fix m :: nat assume "4 < m \<and> m \<le> 60"
    then show "0 \<le> Net_Cash_Flow df1 ! (m - 1)"
      by (intro worked_example_returns(1) [OF r1]) auto
  qed
  have pos: "\<exists>m. 4 < m \<and> m \<le> 60 \<and> 0 < Net_Cash_Flow df1 ! (m - 1)"
  proof (intro exI [of _ 7] conjI)
    have "(6::nat) < 60" by simp
    note f = worked_example_flow [OF r1 this]
      and q = decline_power_bounds(1) [OF this] and p = escalation_power_bounds(2) [OF this]
    have "capex_schedule ! 6 \<le> 10" by (intro capex_schedule_tail) simp_all
    with f q p have "0 < Net_Cash_Flow df1 ! 6" by linarith
    then show "0 < Net_Cash_Flow df1 ! (7 - 1)" by simp
  qed simp_all
  have nn: "(4::nat) = 0 \<or> 0 \<le> NPV s1"
    using worked_example_npv_nonneg [OF r1] by simp
  have "NPV s2 < NPV s1"
    using npv_decreases_with_discount_rate [OF r1 r2 out ret pos _ _ nn] by simp
  then show ?thesis unfolding model_projr [OF r1] model_projr [OF r2] .
qed

text \<open>
  C9 as stated fails. The net cash flows of the worked example are outlays followed by
  returns, with a positive NPV at the worked example's own discount rate. Where its NPV
  is negative, a larger discount rate can give a larger NPV: at most \<open>-450\<close> at 500
  percent, at least \<open>-340\<close> at 1000 percent.
\<close>

theorem npv_increasing_counterexample:
  "0 < NPV (snd (projr (calculate_oil_gas_model (\<lambda>f x0. Converged x0) 65 3.25 1000 1.5 10)))
   \<and> NPV (snd (projr (calculate_oil_gas_model (\<lambda>f x0. Converged x0) 65 3.25 1000 1.5 500)))
       < NPV (snd (projr (calculate_oil_gas_model (\<lambda>f x0. Converged x0) 65 3.25 1000 1.5 1000)))"
proof -
  let ?fs = "\<lambda>(f::real \<Rightarrow> real) (x0::real). Converged x0"
  have "\<bar>1 - 1.5 / 100\<bar> \<le> (2::real)" "1 / 2 \<le> \<bar>(1::real) + 10 / 100 / 12\<bar>"
    by simp_all
  from model_defined [OF this] obtain df0 s0
    where r0: "calculate_oil_gas_model ?fs 65 3.25 1000 1.5 10 = Inr (df0, s0)" by blast
  have "\<bar>1 - 1.5 / 100\<bar> \<le> (2::real)" "1 / 2 \<le> \<bar>(1::real) + 500 / 100 / 12\<bar>"
    by simp_all
  from model_defined [OF this] obtain df1 s1
    where r1: "calculate_oil_gas_model ?fs 65 3.25 1000 1.5 500 = Inr (df1, s1)" by blast
  have "\<bar>1 - 1.5 / 100\<bar> \<le> (2::real)" "1 / 2 \<le> \<bar>(1::real) + 1000 / 100 / 12\<bar>"
    by simp_all
  from model_defined [OF this] obtain df2 s2
    where r2: "calculate_oil_gas_model ?fs 65 3.25 1000 1.5 1000 = Inr (df2, s2)" by blast
  from worked_example_npv_nonneg [OF r0] have "0 < NPV s0" by simp
  moreover from worked_example_npv_500 [OF r1] worked_example_npv_1000 [OF r2]
  have "NPV s1 < NPV s2" by simp
  ultimately show ?thesis
    unfolding model_projr [OF r0] model_projr [OF r1] model_projr [OF r2] by (intro conjI)
qed

section \<open>Properties of the IRR solver\<close>

text \<open>
  C5, as the code has it. For every cash-flow sequence and every outcome of the root
  finder the result lies between \<open>-100\<close> and \<open>1000\<close>. It is exactly 0 when the call
  of the root finder raises an exception. When the root finder stops without having
  converged and raises nothing, the result is its last iterate times 100, clamped to that
  range, the same as for an iterate that converged; it is then 0 only if that iterate
  is 0.
\<close>

theorem irr_clamped:
  "- 100 \<le> calculate_irr_scipy fsolve cash_flows
   \<and> calculate_irr_scipy fsolve cash_flows \<le> 1000
   \<and> (fsolve (npv_func cash_flows) 0.1 = Raised \<longrightarrow> calculate_irr_scipy fsolve cash_flows = 0)
   \<and> (\<forall>x. fsolve (npv_func cash_flows) 0.1 = NotConverged x \<longrightarrow>
          calculate_irr_scipy fsolve cash_flows = max (min (x * 100) 1000) (- 100)
        \<and> (calculate_irr_scipy fsolve cash_flows = 0 \<longleftrightarrow> x = 0))
   \<and> (\<forall>x. fsolve (npv_func cash_flows) 0.1 = Converged x \<longrightarrow>
          calculate_irr_scipy fsolve cash_flows = max (min (x * 100) 1000) (- 100))"
  by (cases "fsolve (npv_func cash_flows) 0.1")
     (auto simp: calculate_irr_scipy_def Let_def max_def min_def)

theorem irr_clamped_witness:
  "calculate_irr_scipy (\<lambda>f x0. Raised) [- 500, 300, 300] = 0
   \<and> calculate_irr_scipy (\<lambda>f x0. NotConverged (- 3)) [- 500, 300, 300] = - 100
   \<and> calculate_irr_scipy (\<lambda>f x0. Converged 0.25) [- 500, 300, 300] = 25"
proof -
  have "calculate_irr_scipy (\<lambda>f x0. Raised) [- 500, 300, 300] = 0"
    using irr_clamped [of "\<lambda>f x0. Raised" "[- 500, 300, 300]"] by simp
  moreover have "calculate_irr_scipy (\<lambda>f x0. NotConverged (- 3)) [- 500, 300, 300] = - 100"
    using irr_clamped [of "\<lambda>f x0. NotConverged (- 3)" "[- 500, 300, 300]"] by simp
  moreover have "calculate_irr_scipy (\<lambda>f x0. Converged 0.25) [- 500, 300, 300] = 25"
  proof -
    from irr_clamped [of "\<lambda>f x0. Converged 0.25" "[- 500, 300, 300]"]
    have "\<forall>x. Converged 0.25 = Converged x \<longrightarrow>
            calculate_irr_scipy (\<lambda>f x0. Converged 0.25) [- 500, 300, 300]
              = max (min (x * 100) 1000) (- 100)"
      by blast
    from this [rule_format, of "0.25"] show ?thesis by simp
  qed
  ultimately show ?thesis by (intro conjI)
qed

text \<open>
  C5 as stated fails. A single positive cash flow has no rate of return: \<^verbatim>\<open>npv_func\<close> is
  \<open>1 / (1 + rate / 12)\<close> and nowhere 0, so no root finder converges on it. One that stops
  without raising, at an iterate of 10 or more, here 20, makes the solver return the cap
  1000, not 0.
\<close>

theorem irr_not_converged_counterexample:
  "calculate_irr_scipy (\<lambda>f x0. NotConverged 20) [1] = 1000
   \<and> calculate_irr_scipy (\<lambda>f x0. NotConverged 20) [1] \<noteq> 0"
  by (simp add: calculate_irr_scipy_def)

section \<open>Properties of the risk aggregator\<close>

lemma risk_defined:
  "mc_results \<noteq> [] \<Longrightarrow> \<exists>r. create_risk_assessment mc_results = Inr r"
  by (simp add: create_risk_assessment_def Let_def)

lemma risk_fields:
  assumes "create_risk_assessment mc_results = Inr r"
  shows "Expected_NPV r = mean (map mc_NPV mc_results)"
    and "Standard_Deviation r = std (map mc_NPV mc_results)"
    and "Coefficient_of_Variation r =
           (if mean (map mc_NPV mc_results) \<noteq> 0
            then div_by_pos (std (map mc_NPV mc_results)) \<bar>mean (map mc_NPV mc_results)\<bar>
            else PosInf)"
    and "Risk_Adjusted_Return r =
           (case std (map mc_NPV mc_results) of
              Fin sd \<Rightarrow> (if sd > 0 then mean (map mc_NPV mc_results) / sd else 0)
            | PosInf \<Rightarrow> 0
            | NaN \<Rightarrow> 0)"
proof -
  from assms have ne: "mc_results \<noteq> []"
    by (auto simp: create_risk_assessment_def)
  from assms ne show "Expected_NPV r = mean (map mc_NPV mc_results)"
    by (auto simp: create_risk_assessment_def Let_def)
  from assms ne show "Standard_Deviation r = std (map mc_NPV mc_results)"
    by (auto simp: create_risk_assessment_def Let_def)
  from assms ne show "Coefficient_of_Variation r =
           (if mean (map mc_NPV mc_results) \<noteq> 0
            then div_by_pos (std (map mc_NPV mc_results)) \<bar>mean (map mc_NPV mc_results)\<bar>
            else PosInf)"
    by (auto simp: create_risk_assessment_def Let_def)
  from assms ne show "Risk_Adjusted_Return r =
           (case std (map mc_NPV mc_results) of
              Fin sd \<Rightarrow> (if sd > 0 then mean (map mc_NPV mc_results) / sd else 0)
            | PosInf \<Rightarrow> 0
            | NaN \<Rightarrow> 0)"
    by (auto simp: create_risk_assessment_def Let_def)
qed



text \<open>
  C3, as the code has it. Applied to the DataFrame of a batch of zero runs, the risk
  aggregator fails with the \<open>KeyError\<close> of the column lookup \<^verbatim>\<open>mc_results['NPV']\<close>.
\<close>

theorem empty_batch_key_error:
  "create_risk_assessment [] = Inl KeyError"
  by (simp add: create_risk_assessment_def)

text \<open>
  C3 as stated fails: the failure on the empty batch is not \<open>EmptyBatchError\<close>, an
  error the source does not have.
\<close>

theorem empty_batch_counterexample:
  "create_risk_assessment [] \<noteq> Inl EmptyBatchError"
  by (simp add: create_risk_assessment_def)




text \<open>
  C10. For every non-empty batch the aggregator returns a report (it raises nothing). When
  the mean NPV is not 0, the coefficient of variation is the standard deviation divided by
  the absolute value of the mean; for a standard deviation that is a number \<open>sd\<close> this is
  the number \<open>sd / \<bar>mean\<bar>\<close>. When the mean NPV is exactly 0, it is the infinity
  \<open>PosInf\<close>, which is neither an error nor 0.
\<close>

theorem coefficient_of_variation:
  assumes "mc_results \<noteq> []"
  shows "\<exists>r. create_risk_assessment mc_results = Inr r
      \<and> Expected_NPV r = mean (map mc_NPV mc_results)
      \<and> Standard_Deviation r = std (map mc_NPV mc_results)
      \<and> (Expected_NPV r \<noteq> 0 \<longrightarrow>
            Coefficient_of_Variation r = div_by_pos (Standard_Deviation r) \<bar>Expected_NPV r\<bar>)
      \<and> (\<forall>sd. Expected_NPV r \<noteq> 0 \<and> Standard_Deviation r = Fin sd \<longrightarrow>
            Coefficient_of_Variation r = Fin (sd / \<bar>Expected_NPV r\<bar>))
      \<and> (Expected_NPV r = 0 \<longrightarrow> Coefficient_of_Variation r = PosInf)"
proof -
  from risk_defined [OF assms] obtain r where r: "create_risk_assessment mc_results = Inr r" ..
  note f = risk_fields [OF r]
  have a: "Expected_NPV r \<noteq> 0 \<longrightarrow>
            Coefficient_of_Variation r = div_by_pos (Standard_Deviation r) \<bar>Expected_NPV r\<bar>"
    by (simp add: f(1,2,3))
  have b: "\<forall>sd. Expected_NPV r \<noteq> 0 \<and> Standard_Deviation r = Fin sd \<longrightarrow>
            Coefficient_of_Variation r = Fin (sd / \<bar>Expected_NPV r\<bar>)"
  proof (intro allI impI)
    fix sd assume h: "Expected_NPV r \<noteq> 0 \<and> Standard_Deviation r = Fin sd"
    with f(2) have "std (map mc_NPV mc_results) = Fin sd" by simp
    with h show "Coefficient_of_Variation r = Fin (sd / \<bar>Expected_NPV r\<bar>)"
      by (simp add: f(1,3))
  qed
  have c: "Expected_NPV r = 0 \<longrightarrow> Coefficient_of_Variation r = PosInf"
    by (simp add: f(1,3))
  show ?thesis
    by (rule exI [of _ r]) (intro conjI r f(1) f(2) a b c)
qed

theorem coefficient_of_variation_witness:
  "Coefficient_of_Variation (projr (create_risk_assessment [run_with_npv (- 10), run_with_npv 2]))
     = Fin (sqrt 72 / 4)
   \<and> Coefficient_of_Variation (projr (create_risk_assessment [run_with_npv (- 4), run_with_npv 4]))
     = PosInf"
proof -
  let ?a = "[run_with_npv (- 10), run_with_npv 2]"
  let ?b = "[run_with_npv (- 4), run_with_npv 4]"
  from coefficient_of_variation [of ?a] obtain ra where
    ra: "create_risk_assessment ?a = Inr ra"
    and e: "Expected_NPV ra = mean (map mc_NPV ?a)"
    and s: "Standard_Deviation ra = std (map mc_NPV ?a)"
    and q: "\<forall>sd. Expected_NPV ra \<noteq> 0 \<and> Standard_Deviation ra = Fin sd \<longrightarrow>
            Coefficient_of_Variation ra = Fin (sd / \<bar>Expected_NPV ra\<bar>)"
    by blast
  have e': "Expected_NPV ra = - 4" by (simp add: e mean_def)
  have s': "Standard_Deviation ra = Fin (sqrt 72)" by (simp add: s std_def mean_def)
  from q e' s' have a: "Coefficient_of_Variation ra = Fin (sqrt 72 / 4)" by simp
  from coefficient_of_variation [of ?b] obtain rb where
    rb: "create_risk_assessment ?b = Inr rb"
    and eb: "Expected_NPV rb = mean (map mc_NPV ?b)"
    and qb: "Expected_NPV rb = 0 \<longrightarrow> Coefficient_of_Variation rb = PosInf"
    by blast
  have "Expected_NPV rb = 0" by (simp add: eb mean_def)
  with qb have b: "Coefficient_of_Variation rb = PosInf" by simp
  from a b show ?thesis unfolding ra rb by simp
qed

section \<open>Properties of the Monte Carlo simulator\<close>

lemma bind_err_Inr:
  "bind_err m f = Inr y \<Longrightarrow> \<exists>x. m = Inr x \<and> f x = Inr y"
  by (cases m) (simp_all add: bind_err_def)

lemma getitem_Inr: "getitem d k = Inr v \<Longrightarrow> d k = Some v"
  by (simp add: getitem_def split: option.splits)

lemma mc_trial_row:
  assumes "mc_trial normal fsolve base_params volatility_factors g = Inr (run, g1)"
  shows "20 \<le> Oil_Price run \<and> 1 \<le> Gas_Price run \<and> 100 \<le> Initial_Production run
     \<and> 0.5 \<le> Decline_Rate run \<and> Decline_Rate run \<le> 10
     \<and> (\<exists>discount_rate df s.
           base_params ''discount_rate'' = Some discount_rate
         \<and> calculate_oil_gas_model fsolve (Oil_Price run) (Gas_Price run) (Initial_Production run)
              (Decline_Rate run) discount_rate = Inr (df, s)
         \<and> mc_NPV run = NPV s \<and> mc_IRR run = IRR s
         \<and> mc_Payback_Months run = Payback_Months s
         \<and> mc_Final_Cumulative_CF run = Final_Cumulative_CF s
         \<and> mc_Total_Investment run = Total_Investment s
         \<and> mc_Total_Revenue run = Sum_Total_Revenue s)"
  using assms unfolding mc_trial_def Let_def
  by (auto dest!: bind_err_Inr getitem_Inr split: prod.splits)

lemma mc_loop_invariant:
  assumes step: "\<And>g run g1. mc_trial normal fsolve base_params volatility_factors g = Inr (run, g1) \<Longrightarrow> P run"
  shows "mc_loop normal fsolve base_params volatility_factors k g results = Inr (results', g')
     \<Longrightarrow> \<forall>run\<in>set results. P run
     \<Longrightarrow> (\<forall>run\<in>set results'. P run) \<and> length results' = length results + k"
proof (induction k arbitrary: g results)
  case 0
  then show ?case by simp
next
  case (Suc k)
  from Suc.prems(1) obtain run g1 where
    t: "mc_trial normal fsolve base_params volatility_factors g = Inr (run, g1)"
    and l: "mc_loop normal fsolve base_params volatility_factors k g1 (results @ [run]) = Inr (results', g')"
    by (auto dest!: bind_err_Inr)
  from step [OF t] Suc.prems(2) have "\<forall>r\<in>set (results @ [run]). P r" by simp
  from Suc.IH [OF l this] show ?case by simp
qed

lemma mc_trial_defined:
  assumes "base_params ''oil_price'' = Some b1" "volatility_factors ''oil_price'' = Some v1"
    and "base_params ''gas_price'' = Some b2" "volatility_factors ''gas_price'' = Some v2"
    and "base_params ''initial_production'' = Some b3"
    and "volatility_factors ''initial_production'' = Some v3"
    and "base_params ''decline_rate'' = Some b4" "volatility_factors ''decline_rate'' = Some v4"
    and "base_params ''discount_rate'' = Some d"
    and "0 \<le> b1 * v1" "0 \<le> b2 * v2" "0 \<le> b3 * v3" "0 \<le> b4 * v4"
    and "1 / 2 \<le> \<bar>1 + d / 100 / 12\<bar>"
  shows "\<exists>run g1. mc_trial normal fsolve base_params volatility_factors g = Inr (run, g1)"
proof -
  have m: "\<exists>r. calculate_oil_gas_model fsolve op gp ip (max 0.5 (min 10 x)) d = Inr r"
    for op gp ip x
  proof -
    have "\<bar>1 - max 0.5 (min 10 x) / 100\<bar> \<le> 2" by (simp add: max_def min_def abs_if)
    from model_defined [OF this assms(14)] show ?thesis by blast
  qed
  obtain x1 g1 where n1: "normal b1 (b1 * v1) g = (x1, g1)" by (cases "normal b1 (b1 * v1) g")
  obtain x2 g2 where n2: "normal b2 (b2 * v2) g1 = (x2, g2)" by (cases "normal b2 (b2 * v2) g1")
  obtain x3 g3 where n3: "normal b3 (b3 * v3) g2 = (x3, g3)" by (cases "normal b3 (b3 * v3) g2")
  obtain x4 g4 where n4: "normal b4 (b4 * v4) g3 = (x4, g4)" by (cases "normal b4 (b4 * v4) g3")
  from m obtain r where
    "calculate_oil_gas_model fsolve (max 20 x1) (max 1 x2) (max 100 x3) (max 0.5 (min 10 x4)) d = Inr r"
    by blast
  then show ?thesis
    using assms(1-13) n1 n2 n3 n4
    by (simp add: mc_trial_def bind_err_def getitem_def np_random_normal_def Let_def
          split: prod.splits)
qed

lemma mc_loop_defined:
  assumes "\<And>g. \<exists>run g1. mc_trial normal fsolve base_params volatility_factors g = Inr (run, g1)"
  shows "\<exists>results' g'. mc_loop normal fsolve base_params volatility_factors k g results
                          = Inr (results', g')"
proof (induction k arbitrary: g results)
  case 0
  show ?case by simp
next
  case (Suc k)
  from assms obtain run g1 where
    t: "mc_trial normal fsolve base_params volatility_factors g = Inr (run, g1)" by blast
  from Suc.IH [of g1 "results @ [run]"] t show ?case by (simp add: bind_err_def)
qed

text \<open>
  C6. Whenever the simulator returns a batch, whatever numbers the generator draws, the
  batch has one run per trial, and every run satisfies the bounds: oil price at least 20,
  gas price at least 1, initial production at least 100, decline rate between 0.5 and 10.
  The six summary entries of every run are those of the projection of the run's four
  sampled parameters with the discount rate of \<^verbatim>\<open>base_params\<close>, unchanged.
\<close>

theorem monte_carlo_bounds:
  assumes "run_monte_carlo_simulation normal g fsolve base_params num_simulations
             volatility_factors = Inr (results, g')"
  shows "length results = nat num_simulations
     \<and> (\<forall>run\<in>set results.
           20 \<le> Oil_Price run \<and> 1 \<le> Gas_Price run \<and> 100 \<le> Initial_Production run
         \<and> 0.5 \<le> Decline_Rate run \<and> Decline_Rate run \<le> 10
         \<and> (\<exists>discount_rate df s.
               base_params ''discount_rate'' = Some discount_rate
             \<and> calculate_oil_gas_model fsolve (Oil_Price run) (Gas_Price run)
                  (Initial_Production run) (Decline_Rate run) discount_rate = Inr (df, s)
             \<and> mc_NPV run = NPV s \<and> mc_IRR run = IRR s
             \<and> mc_Payback_Months run = Payback_Months s
             \<and> mc_Final_Cumulative_CF run = Final_Cumulative_CF s
             \<and> mc_Total_Investment run = Total_Investment s
             \<and> mc_Total_Revenue run = Sum_Total_Revenue s))"
proof -
  define vf where
    "vf = (case volatility_factors of None \<Rightarrow> default_volatility_factors | Some v \<Rightarrow> v)"
  from assms have l: "mc_loop normal fsolve base_params vf (nat num_simulations) g [] = Inr (results, g')"
    by (simp add: run_monte_carlo_simulation_def vf_def)
  have "(\<forall>run\<in>set results.
           20 \<le> Oil_Price run \<and> 1 \<le> Gas_Price run \<and> 100 \<le> Initial_Production run
         \<and> 0.5 \<le> Decline_Rate run \<and> Decline_Rate run \<le> 10
         \<and> (\<exists>discount_rate df s.
               base_params ''discount_rate'' = Some discount_rate
             \<and> calculate_oil_gas_model fsolve (Oil_Price run) (Gas_Price run)
                  (Initial_Production run) (Decline_Rate run) discount_rate = Inr (df, s)
             \<and> mc_NPV run = NPV s \<and> mc_IRR run = IRR s
             \<and> mc_Payback_Months run = Payback_Months s
             \<and> mc_Final_Cumulative_CF run = Final_Cumulative_CF s
             \<and> mc_Total_Investment run = Total_Investment s
             \<and> mc_Total_Revenue run = Sum_Total_Revenue s))
        \<and> length results = length ([] :: mc_run list) + nat num_simulations"
    by (rule mc_loop_invariant [OF mc_trial_row l]) simp_all
  then show ?thesis by simp
qed

theorem monte_carlo_bounds_witness:
  "length (fst (projr (run_monte_carlo_simulation (\<lambda>mu sigma (g::nat). (mu - 100 * sigma, Suc g)) 0
       (\<lambda>f x0. Converged x0)
       [''oil_price'' \<mapsto> 65, ''gas_price'' \<mapsto> 3.25, ''initial_production'' \<mapsto> 1000,
        ''decline_rate'' \<mapsto> 1.5, ''discount_rate'' \<mapsto> 10] 2 None))) = 2
   \<and> 20 \<le> Oil_Price (hd (fst (projr (run_monte_carlo_simulation
       (\<lambda>mu sigma (g::nat). (mu - 100 * sigma, Suc g)) 0 (\<lambda>f x0. Converged x0)
       [''oil_price'' \<mapsto> 65, ''gas_price'' \<mapsto> 3.25, ''initial_production'' \<mapsto> 1000,
        ''decline_rate'' \<mapsto> 1.5, ''discount_rate'' \<mapsto> 10] 2 None))))
   \<and> 0.5 \<le> Decline_Rate (hd (fst (projr (run_monte_carlo_simulation
       (\<lambda>mu sigma (g::nat). (mu - 100 * sigma, Suc g)) 0 (\<lambda>f x0. Converged x0)
       [''oil_price'' \<mapsto> 65, ''gas_price'' \<mapsto> 3.25, ''initial_production'' \<mapsto> 1000,
        ''decline_rate'' \<mapsto> 1.5, ''discount_rate'' \<mapsto> 10] 2 None))))"
proof -
  let ?normal = "\<lambda>(mu::real) (sigma::real) (g::nat). (mu - 100 * sigma, Suc g)"
  let ?fs = "\<lambda>(f::real \<Rightarrow> real) (x0::real). Converged x0"
  let ?bp = "[''oil_price'' \<mapsto> 65, ''gas_price'' \<mapsto> 3.25, ''initial_production'' \<mapsto> 1000,
        ''decline_rate'' \<mapsto> 1.5, ''discount_rate'' \<mapsto> (10::real)]"
  have trial: "\<exists>run g1. mc_trial ?normal ?fs ?bp default_volatility_factors g = Inr (run, g1)" for g
    by (rule mc_trial_defined [where ?b1.0 = 65 and ?v1.0 = "0.15" and ?b2.0 = "3.25"
          and ?v2.0 = "0.25" and ?b3.0 = 1000 and ?v3.0 = "0.10" and ?b4.0 = "1.5"
          and ?v4.0 = "0.20" and d = 10])
       (simp_all add: default_volatility_factors_def)
  from mc_loop_defined [of ?normal ?fs ?bp default_volatility_factors 2 0 "[]", OF trial]
  obtain results g' where
    "mc_loop ?normal ?fs ?bp default_volatility_factors 2 0 [] = Inr (results, g')" by blast
  then have r: "run_monte_carlo_simulation ?normal 0 ?fs ?bp 2 None = Inr (results, g')"
    by (simp add: run_monte_carlo_simulation_def)
  note b = monte_carlo_bounds [OF r]
  from b have len: "length results = 2" by simp
  then have "hd results \<in> set results" by (cases results) simp_all
  with b have "20 \<le> Oil_Price (hd results) \<and> 0.5 \<le> Decline_Rate (hd results)" by blast
  with len have "length results = 2 \<and> 20 \<le> Oil_Price (hd results) \<and> 0.5 \<le> Decline_Rate (hd results)"
    by simp
  moreover have "fst (projr (run_monte_carlo_simulation ?normal 0 ?fs ?bp 2 None)) = results"
    by (simp only: r sum.sel fst_conv)
  ultimately show ?thesis by (simp only:)
qed

end
